theory Spec2Isabelle
  imports Complex_Main
begin

section \<open>Data model (hooks/constantsLipsync)\<close>

text \<open>
  A JavaScript string is a sequence of UTF-16 code units; \<open>str[i]\<close> and
  \<open>str.length\<close> count code units. Phoneme strings and IPA tokens are therefore
  lists of code units. Viseme names are the ASCII literals of the source
  (\<open>"viseme_PP"\<close>, ...) and are kept as HOL strings; \<open>js\<close> gives the code units
  of such a name where the source uses a name as a key of a token table.
\<close>

type_synonym jstring = "nat list"

definition js :: "string \<Rightarrow> jstring" where
  "js s = map of_char s"

text \<open>
  A JavaScript number is a finite value, NaN or one of the two infinities. The
  finite values are real numbers. The functions of the first sections compute
  with them exactly; the normalizer and the allocator are given a second time
  with the rounding of IEEE doubles after every operation, in the section on
  double arithmetic. Overflow is not part of the model.
\<close>

datatype jsnum = Fin real | NaN | PosInf | NegInf

fun isFinite :: "jsnum \<Rightarrow> bool" where
  "isFinite (Fin x) = True"
| "isFinite NaN = False"
| "isFinite PosInf = False"
| "isFinite NegInf = False"

text \<open>The value of a number already known to be finite (0 otherwise, never read).\<close>

fun finVal :: "jsnum \<Rightarrow> real" where
  "finVal (Fin x) = x"
| "finVal NaN = 0"
| "finVal PosInf = 0"
| "finVal NegInf = 0"

record WordTiming =
  word :: jstring
  phoneme :: jstring
  start :: jsnum
  endT :: jsnum

text \<open>
  The fields \<open>end\<close> of a word and \<open>at\<close> of an event are \<open>endT\<close> and \<open>atT\<close> here
  (both words are reserved in Isabelle). Optional fields (\<open>peak?\<close>, \<open>attack?\<close>,
  \<open>decay?\<close>) are options.
\<close>

record VisemeEvent =
  atT :: real
  name :: string
  duration :: real
  peak :: "real option"
  attack :: "real option"
  decay :: "real option"

record ActiveEnv =
  envName :: string
  timeLeft :: real
  total :: real
  envPeak :: real
  envAttack :: real
  envDecay :: real

record SegState =
  segOffset :: real
  lastAbsEnd :: real

text \<open>
  The deduplication key of \<open>makeEventKey\<close> is the string
  \<open>name@bucket.toFixed(2)\<close>, where the bucket is \<open>Math.round(at / 0.01) * 0.01\<close>.
  The text after the last \<open>@\<close> is the two-decimal numeral of the bucket index
  over 100, so the string determines and is determined by the pair of the name
  and the integer bucket index: the key is modelled as that pair, and the set
  \<open>seenEventsRef\<close> as the set of the keys of this form that it holds.
\<close>

type_synonym eventKey = "string \<times> int"

text \<open>
  The module-level mutable cells \<open>t0Ref\<close>, \<open>segStateRef\<close>, \<open>wordQueueRef\<close>,
  \<open>pendingEventsRef\<close>, \<open>activeEnvelopesRef\<close> and \<open>seenEventsRef\<close> as one state;
  \<open>t0 = None\<close> is \<open>t0Ref.current == null\<close>.
\<close>

record LipState =
  t0 :: "real option"
  segState :: SegState
  wordQueue :: "WordTiming list"
  pendingEvents :: "VisemeEvent list"
  activeEnvelopes :: "ActiveEnv list"
  seenEvents :: "eventKey set"

definition initState :: LipState where
  "initState = \<lparr> t0 = None, segState = \<lparr> segOffset = 0, lastAbsEnd = 0 \<rparr>,
     wordQueue = [], pendingEvents = [], activeEnvelopes = [], seenEvents = {} \<rparr>"

section \<open>Absolute-time normalizer (normalizeWordsToAbsolute)\<close>

definition EPS :: real where "EPS = 0.005"
definition GAP_PAD :: real where "GAP_PAD = 0.03"
definition HARD_RESET_BACKSTEP :: real where "HARD_RESET_BACKSTEP = 0.8"

text \<open>
  \<open>words.filter(finite).map(copy).filter(w => w.end >= w.start)\<close>: the second
  filter only sees finite values.
\<close>

definition validWord :: "WordTiming \<Rightarrow> bool" where
  "validWord w = (isFinite (start w) \<and> isFinite (endT w) \<and> finVal (endT w) \<ge> finVal (start w))"

definition cleanWords :: "WordTiming list \<Rightarrow> WordTiming list" where
  "cleanWords words =
     filter (\<lambda>w. finVal (endT w) \<ge> finVal (start w))
       (filter (\<lambda>w. isFinite (start w) \<and> isFinite (endT w)) words)"

definition shiftWord :: "real \<Rightarrow> WordTiming \<Rightarrow> WordTiming" where
  "shiftWord off w = w\<lparr> start := Fin (finVal (start w) + off), endT := Fin (finVal (endT w) + off) \<rparr>"

text \<open>\<open>Math.min(...xs)\<close> and \<open>Math.max(...xs)\<close> of a non-empty argument list.\<close>

definition localMinOf :: "WordTiming \<Rightarrow> WordTiming list \<Rightarrow> real" where
  "localMinOf c cs = fold min (map (\<lambda>w. finVal (start w)) cs) (finVal (start c))"

definition localMaxOf :: "WordTiming \<Rightarrow> WordTiming list \<Rightarrow> real" where
  "localMaxOf c cs = fold max (map (\<lambda>w. finVal (endT w)) cs) (finVal (endT c))"

text \<open>The backward-jump branch, which moves \<open>seg.segOffset\<close>.\<close>

definition restitch :: "SegState \<Rightarrow> real \<Rightarrow> SegState" where
  "restitch seg localMin =
     (let candAbsMin = segOffset seg + localMin in
      if candAbsMin + EPS < lastAbsEnd seg then
        (let backstep = lastAbsEnd seg - candAbsMin in
         if backstep > HARD_RESET_BACKSTEP
         then seg\<lparr> segOffset := lastAbsEnd seg + GAP_PAD \<rparr>
         else seg\<lparr> segOffset := segOffset seg + (backstep + GAP_PAD) \<rparr>)
      else seg)"

definition normalizeWordsToAbsolute :: "WordTiming list \<Rightarrow> SegState \<Rightarrow> WordTiming list \<times> SegState" where
  "normalizeWordsToAbsolute words seg =
     (if words = [] then ([], seg)
      else case cleanWords words of
        [] \<Rightarrow> ([], seg)
      | c # cs \<Rightarrow>
          (let localMin = localMinOf c cs;
               localMax = localMaxOf c cs;
               seg1 = restitch seg localMin;
               adjusted = map (shiftWord (segOffset seg1)) (c # cs)
           in (adjusted, seg1\<lparr> lastAbsEnd := max (lastAbsEnd seg1) (segOffset seg1 + localMax) \<rparr>)))"

text \<open>A sequence of Normalizer calls, threading the segment state.\<close>

definition normalizeAll :: "WordTiming list list \<Rightarrow> SegState \<Rightarrow> SegState" where
  "normalizeAll batches seg = fold (\<lambda>b s. snd (normalizeWordsToAbsolute b s)) batches seg"

text \<open>
  A batch is non-regressing when the backward-jump test of the source fails for
  it: its candidate absolute start \<open>segOffset + localMin\<close> does not precede
  \<open>lastAbsEnd\<close> by more than \<open>EPS\<close>.
\<close>

definition nonRegressing :: "SegState \<Rightarrow> WordTiming list \<Rightarrow> bool" where
  "nonRegressing seg ws =
     (case cleanWords ws of
        [] \<Rightarrow> True
      | c # cs \<Rightarrow> \<not> (segOffset seg + localMinOf c cs + EPS < lastAbsEnd seg))"

section \<open>Phoneme tokenizer and viseme resolver (phonemeConvert)\<close>

text \<open>The code units of the non-ASCII characters that the source's tables name.\<close>

abbreviation c_eth :: nat where "c_eth \<equiv> 0xF0"                      \<comment> \<open>U+00F0, voiced dental fricative\<close>
abbreviation c_ash :: nat where "c_ash \<equiv> 0xE6"                      \<comment> \<open>U+00E6, ae ligature\<close>
abbreviation c_eng :: nat where "c_eng \<equiv> 0x14B"                     \<comment> \<open>U+014B, velar nasal\<close>
abbreviation c_turned_a :: nat where "c_turned_a \<equiv> 0x250"           \<comment> \<open>U+0250\<close>
abbreviation c_script_a :: nat where "c_script_a \<equiv> 0x251"           \<comment> \<open>U+0251\<close>
abbreviation c_turned_script_a :: nat where "c_turned_script_a \<equiv> 0x252" \<comment> \<open>U+0252\<close>
abbreviation c_open_o :: nat where "c_open_o \<equiv> 0x254"               \<comment> \<open>U+0254\<close>
abbreviation c_schwa :: nat where "c_schwa \<equiv> 0x259"                 \<comment> \<open>U+0259\<close>
abbreviation c_schwa_hook :: nat where "c_schwa_hook \<equiv> 0x25A"       \<comment> \<open>U+025A, r-coloured schwa\<close>
abbreviation c_open_e :: nat where "c_open_e \<equiv> 0x25B"               \<comment> \<open>U+025B\<close>
abbreviation c_rev_open_e :: nat where "c_rev_open_e \<equiv> 0x25C"       \<comment> \<open>U+025C\<close>
abbreviation c_rev_open_e_hook :: nat where "c_rev_open_e_hook \<equiv> 0x25D" \<comment> \<open>U+025D\<close>
abbreviation c_script_g :: nat where "c_script_g \<equiv> 0x261"           \<comment> \<open>U+0261\<close>
abbreviation c_small_cap_i :: nat where "c_small_cap_i \<equiv> 0x26A"     \<comment> \<open>U+026A\<close>
abbreviation c_turned_r :: nat where "c_turned_r \<equiv> 0x279"           \<comment> \<open>U+0279\<close>
abbreviation c_fishhook_r :: nat where "c_fishhook_r \<equiv> 0x27E"       \<comment> \<open>U+027E, flap\<close>
abbreviation c_esh :: nat where "c_esh \<equiv> 0x283"                     \<comment> \<open>U+0283\<close>
abbreviation c_upsilon :: nat where "c_upsilon \<equiv> 0x28A"             \<comment> \<open>U+028A\<close>
abbreviation c_turned_v :: nat where "c_turned_v \<equiv> 0x28C"           \<comment> \<open>U+028C\<close>
abbreviation c_ezh :: nat where "c_ezh \<equiv> 0x292"                     \<comment> \<open>U+0292\<close>
abbreviation c_glottal :: nat where "c_glottal \<equiv> 0x294"             \<comment> \<open>U+0294, glottal stop\<close>
abbreviation c_dezh :: nat where "c_dezh \<equiv> 0x2A4"                   \<comment> \<open>U+02A4, dezh digraph\<close>
abbreviation c_tesh :: nat where "c_tesh \<equiv> 0x2A7"                   \<comment> \<open>U+02A7, tesh digraph\<close>
abbreviation c_stress1 :: nat where "c_stress1 \<equiv> 0x2C8"             \<comment> \<open>U+02C8, primary stress\<close>
abbreviation c_stress2 :: nat where "c_stress2 \<equiv> 0x2CC"             \<comment> \<open>U+02CC, secondary stress\<close>
abbreviation c_length :: nat where "c_length \<equiv> 0x2D0"               \<comment> \<open>U+02D0, length mark\<close>
abbreviation c_theta :: nat where "c_theta \<equiv> 0x3B8"                 \<comment> \<open>U+03B8\<close>

text \<open>
  The object literals \<open>C_MAP\<close> and \<open>V_MAP\<close>, by their own keys. (Keys inherited
  from \<open>Object.prototype\<close>, such as \<open>constructor\<close>, are not modelled: tokens have
  at most two code units and event names are the \<open>viseme_\<close> literals below.)
\<close>

definition C_MAP :: "jstring \<Rightarrow> string option" where
  "C_MAP = map_of
    [(js ''p'', ''viseme_PP''), (js ''b'', ''viseme_PP''), (js ''m'', ''viseme_PP''),
     (js ''f'', ''viseme_FF''), (js ''v'', ''viseme_FF''),
     (js ''t'', ''viseme_DD''), (js ''d'', ''viseme_DD''),
     ([c_fishhook_r], ''viseme_DD''), ([c_glottal], ''viseme_DD''),
     (js ''s'', ''viseme_SS''), (js ''z'', ''viseme_SS''),
     ([c_esh], ''viseme_SS''), ([c_ezh], ''viseme_SS''),
     (js ''t'' @ [c_esh], ''viseme_CH''), (js ''d'' @ [c_ezh], ''viseme_CH''),
     (js ''k'', ''viseme_kk''), (js ''g'', ''viseme_kk''),
     (js ''n'', ''viseme_nn''), ([c_eng], ''viseme_nn''),
     (js ''l'', ''viseme_RR''), (js ''r'', ''viseme_RR''), ([c_turned_r], ''viseme_RR''),
     ([c_theta], ''viseme_TH''), ([c_eth], ''viseme_TH''),
     (js ''w'', ''viseme_U''), (js ''j'', ''viseme_I''), (js ''h'', ''viseme_E'')]"

definition V_MAP :: "jstring \<Rightarrow> string option" where
  "V_MAP = map_of
    [(js ''a'', ''viseme_aa''), ([c_ash], ''viseme_aa''), ([c_script_a], ''viseme_aa''),
     ([c_turned_a], ''viseme_aa''), ([c_turned_script_a], ''viseme_aa''),
     (js ''e'', ''viseme_E''), ([c_open_e], ''viseme_E''),
     (js ''i'', ''viseme_I''), ([c_small_cap_i], ''viseme_I''),
     (js ''o'', ''viseme_O''), ([c_open_o], ''viseme_O''),
     (js ''u'', ''viseme_U''), ([c_upsilon], ''viseme_U''),
     ([c_schwa], ''viseme_E''), ([c_turned_v], ''viseme_E''),
     ([c_schwa_hook], ''viseme_E''), ([c_rev_open_e_hook], ''viseme_E'')]"

text \<open>Truthiness of a table lookup \<open>!!M[k]\<close>: every value is a non-empty string.\<close>

definition hasKey :: "('k \<Rightarrow> 'v option) \<Rightarrow> 'k \<Rightarrow> bool" where
  "hasKey m k = (case m k of None \<Rightarrow> False | Some v \<Rightarrow> True)"

definition DIPHTHONGS :: "jstring list" where
  "DIPHTHONGS =
    [js ''a'' @ [c_small_cap_i], js ''e'' @ [c_small_cap_i], js ''o'' @ [c_upsilon],
     js ''a'' @ [c_upsilon], [c_open_o, c_small_cap_i],
     [c_small_cap_i, c_schwa], js ''e'' @ [c_schwa], [c_upsilon, c_schwa],
     js ''t'' @ [c_esh], js ''d'' @ [c_ezh]]"

definition KOKORO_UPPER_FIXES :: "jstring \<Rightarrow> jstring option" where
  "KOKORO_UPPER_FIXES = map_of
    [(js ''O'', js ''o''), (js ''W'', js ''w''), (js ''A'', js ''a''), (js ''E'', js ''e''),
     (js ''I'', js ''i''), (js ''U'', js ''u''), (js ''Y'', js ''y'')]"

text \<open>
  The two steps of \<open>normalizePhonemeString\<close> that are built into the platform
  and rest on the Unicode character database are parameters of the model:
  \<open>s.normalize("NFC")\<close> and \<open>s.replace(/\p{M}+/gu, "")\<close>.
\<close>

record unicode =
  normalizeNFC :: "jstring \<Rightarrow> jstring"
  stripMarks :: "jstring \<Rightarrow> jstring"

text \<open>\<open>s.replace(/c/g, r)\<close> for one code unit \<open>c\<close>, and removal of a character class.\<close>

definition replaceUnit :: "nat \<Rightarrow> jstring \<Rightarrow> jstring \<Rightarrow> jstring" where
  "replaceUnit c r s = concat (map (\<lambda>x. if x = c then r else [x]) s)"

definition removeUnits :: "nat list \<Rightarrow> jstring \<Rightarrow> jstring" where
  "removeUnits cs s = filter (\<lambda>x. x \<notin> set cs) s"

text \<open>The regular expression class \<open>\s\<close>: white space and line terminators.\<close>

definition isSpace :: "nat \<Rightarrow> bool" where
  "isSpace c = (c \<in> set [0x9, 0xA, 0xB, 0xC, 0xD, 0x20, 0xA0, 0x1680, 0x2028, 0x2029,
                          0x202F, 0x205F, 0x3000, 0xFEFF] \<or> (0x2000 \<le> c \<and> c \<le> 0x200A))"

text \<open>\<open>[A-Z]\<close> replaced by \<open>KOKORO_UPPER_FIXES[m] ?? m.toLowerCase()\<close>.\<close>

definition upperFix :: "nat \<Rightarrow> jstring" where
  "upperFix c =
     (if 0x41 \<le> c \<and> c \<le> 0x5A
      then (case KOKORO_UPPER_FIXES [c] of Some r \<Rightarrow> r | None \<Rightarrow> [c + 0x20])
      else [c])"

definition normalizePhonemeString :: "unicode \<Rightarrow> jstring \<Rightarrow> jstring" where
  "normalizePhonemeString U s =
     (if s = [] then []
      else
        let out = normalizeNFC U s;
            out = replaceUnit c_script_g (js ''g'') out;
            out = replaceUnit c_tesh (js ''t'' @ [c_esh]) out;
            out = replaceUnit c_dezh (js ''d'' @ [c_ezh]) out;
            out = replaceUnit c_schwa_hook [c_schwa, c_turned_r] out;
            out = replaceUnit c_rev_open_e_hook [c_rev_open_e, c_turned_r] out;
            out = removeUnits [c_stress1, c_stress2, 0x2E] out;
            out = removeUnits [c_length] out;
            out = removeUnits [0x361, 0x35C] out;
            out = stripMarks U out;
            out = concat (map upperFix out);
            out = filter (\<lambda>c. \<not> isSpace c) out
        in out)"

definition VOWELS :: "jstring list" where
  "VOWELS =
    [js ''a'', [c_ash], [c_script_a], [c_turned_a], [c_turned_script_a], js ''e'', [c_open_e],
     js ''i'', [c_small_cap_i], js ''o'', [c_open_o], js ''u'', [c_upsilon], [c_schwa],
     [c_turned_v], [c_rev_open_e], [c_schwa_hook], [c_rev_open_e_hook]]"

definition RHOTICS :: "jstring list" where
  "RHOTICS = [js ''r'', [c_turned_r]]"

text \<open>The test \<open>/[\s,;:!?-]/\<close> on one code unit.\<close>

definition isSkipped :: "nat \<Rightarrow> bool" where
  "isSkipped c = (isSpace c \<or> c \<in> set (js '',;:!?-''))"

text \<open>
  The loop of \<open>tokenizeIPA\<close> over the index \<open>i\<close>, as recursion over the rest of
  the string from \<open>i\<close>. At the last code unit \<open>next\<close> is undefined and \<open>two\<close> is
  empty, so neither two-unit rule applies.
\<close>

fun tokenizeLoop :: "jstring \<Rightarrow> jstring list" where
  "tokenizeLoop [] = []"
| "tokenizeLoop [ch] = (if isSkipped ch then [] else [[ch]])"
| "tokenizeLoop (ch # nx # rest) =
     (if [ch, nx] \<in> set DIPHTHONGS then [ch, nx] # tokenizeLoop rest
      else if [ch] \<in> set VOWELS \<and> [nx] \<in> set RHOTICS then [ch, nx] # tokenizeLoop rest
      else if isSkipped ch then tokenizeLoop (nx # rest)
      else [ch] # tokenizeLoop (nx # rest))"

definition tokenizeIPA :: "unicode \<Rightarrow> jstring \<Rightarrow> jstring list" where
  "tokenizeIPA U s =
     (let str = normalizePhonemeString U s in if str = [] then [] else tokenizeLoop str)"

text \<open>
  \<open>token[i]\<close> as a string of one code unit; out of range it is undefined, which
  is a key of no table and a member of no set, like the empty string here.
\<close>

definition charAt :: "jstring \<Rightarrow> nat \<Rightarrow> jstring" where
  "charAt t i = (if i < length t then [t ! i] else [])"

definition resolveTokenToVisemes :: "jstring \<Rightarrow> string list" where
  "resolveTokenToVisemes token =
     (let diph =
            (if token \<in> set DIPHTHONGS then
               (if token = js ''t'' @ [c_esh] then Some [''viseme_CH'']
                else if token = js ''d'' @ [c_ezh] then Some [''viseme_CH'']
                else (case (V_MAP (charAt token 0), V_MAP (charAt token 1)) of
                        (Some a, Some b) \<Rightarrow> Some [a, b]
                      | _ \<Rightarrow> None))
             else None);
          rhot =
            (if length token = 2 \<and> charAt token 0 \<in> set VOWELS \<and> charAt token 1 \<in> set RHOTICS
             then (case V_MAP (charAt token 0) of Some v \<Rightarrow> Some [v, ''viseme_RR''] | None \<Rightarrow> None)
             else None)
      in case diph of
           Some r \<Rightarrow> r
         | None \<Rightarrow>
            (case rhot of
               Some r \<Rightarrow> r
             | None \<Rightarrow>
                (case C_MAP token of
                   Some c \<Rightarrow> [c]
                 | None \<Rightarrow> (case V_MAP token of Some v \<Rightarrow> [v] | None \<Rightarrow> [''viseme_E'']))))"

section \<open>Event timing allocator (compressTokens, wordToVisemeEvents)\<close>

definition MIN_SLOT :: real where "MIN_SLOT = 0.10"
definition WORD_EVENT_CAP :: nat where "WORD_EVENT_CAP = 4"
definition KEEP_AT_LEAST :: nat where "KEEP_AT_LEAST = 2"
definition MIN_DUR :: real where "MIN_DUR = 0.08"
definition MAX_DUR :: real where "MAX_DUR = 0.18"
definition ATTACK :: real where "ATTACK = 0.03"
definition DECAY :: real where "DECAY = 0.04"
definition SPLIT_OVERLAP :: real where "SPLIT_OVERLAP = 0.9"

definition DROPPABLE :: "jstring list" where
  "DROPPABLE = [js ''h'', [c_fishhook_r], [c_glottal]]"

definition LABIALS :: "jstring list" where
  "LABIALS = [js ''p'', js ''b'', js ''m'']"

definition AFFRIC :: "jstring list" where
  "AFFRIC = [js ''t'' @ [c_esh], js ''d'' @ [c_ezh]]"

definition SIBILANTS :: "jstring list" where
  "SIBILANTS = [js ''s'', js ''z'', [c_esh], [c_ezh], js ''f'', js ''v'', [c_theta], [c_eth]]"

definition LIQUIDS :: "jstring list" where
  "LIQUIDS = [js ''l'', js ''r'', [c_turned_r]]"

definition NASALS :: "jstring list" where
  "NASALS = [js ''n'', [c_eng]]"

definition isVowelToken :: "jstring \<Rightarrow> bool" where
  "isVowelToken t =
     (if hasKey V_MAP t then True
      else hasKey V_MAP (charAt t 0) \<and>
           (length t = 1 \<or> charAt t 1 = [c_turned_r] \<or> charAt t 1 = js ''r''))"

definition tokenPriority :: "jstring \<Rightarrow> real" where
  "tokenPriority t =
     (if t \<in> set AFFRIC then 3.0
      else if isVowelToken t then 3.0
      else if t \<in> set LABIALS then 2.5
      else if t \<in> set SIBILANTS then 1.8
      else if t \<in> set NASALS then 1.6
      else if t \<in> set LIQUIDS then 1.4
      else if hasKey C_MAP t then 1.7
      else 1.0)"

text \<open>
  The inner \<open>for\<close> loop of \<open>compressTokens\<close>: the first index of a lowest score.
  \<open>best = None\<close> is the initial \<open>Infinity\<close>, \<open>dropIdx = None\<close> the initial \<open>-1\<close>.
\<close>

definition dropScore :: "jstring \<Rightarrow> real" where
  "dropScore t = tokenPriority t + (if isVowelToken t then 100 else 0)"

fun lowestScan :: "jstring list \<Rightarrow> nat \<Rightarrow> real option \<Rightarrow> nat option \<Rightarrow> nat option" where
  "lowestScan [] i best dropIdx = dropIdx"
| "lowestScan (t # ts) i best dropIdx =
     (if (case best of None \<Rightarrow> True | Some b \<Rightarrow> dropScore t < b)
      then lowestScan ts (Suc i) (Some (dropScore t)) (Some i)
      else lowestScan ts (Suc i) best dropIdx)"

lemma lowestScan_bound:
  "lowestScan ts i best d = Some j \<Longrightarrow> d = Some j \<or> (i \<le> j \<and> j < i + length ts)"
proof (induction ts arbitrary: i best d)
  case Nil
  then show ?case by simp
next
  case (Cons t ts)
  show ?case
  proof (cases "case best of None \<Rightarrow> True | Some b \<Rightarrow> dropScore t < b")
    case True
    then have "lowestScan ts (Suc i) (Some (dropScore t)) (Some i) = Some j"
      using Cons.prems by simp
    from Cons.IH [OF this] show ?thesis by auto
  next
    case False
    then have "lowestScan ts (Suc i) best d = Some j"
      using Cons.prems by simp
    from Cons.IH [OF this] show ?thesis by auto
  qed
qed

text \<open>\<open>out.splice(dropIdx, 1)\<close>.\<close>

definition splice1 :: "nat \<Rightarrow> 'a list \<Rightarrow> 'a list" where
  "splice1 i xs = take i xs @ drop (Suc i) xs"

text \<open>The \<open>while (out.length > target)\<close> loop.\<close>

function dropLoop :: "int \<Rightarrow> jstring list \<Rightarrow> jstring list" where
  "dropLoop target out =
     (if int (length out) > target then
        (case lowestScan out 0 None None of
           None \<Rightarrow> out
         | Some dropIdx \<Rightarrow> dropLoop target (splice1 dropIdx out))
      else out)"
  by pat_completeness auto
termination
proof (relation "measure (\<lambda>(target, out). length out)")
  show "wf (measure (\<lambda>(target, out). length out))" by simp
next
  fix target :: int and out :: "jstring list" and x2 :: nat
  assume "lowestScan out 0 None None = Some x2"
  from lowestScan_bound [OF this] have "x2 < length out" by simp
  then show "((target, splice1 x2 out), (target, out)) \<in> measure (\<lambda>(target, out). length out)"
    by (simp add: splice1_def)
qed

text \<open>
  In step 1 the arrow function passed to \<open>filter\<close> reads the variable \<open>out\<close>,
  which is assigned only after \<open>filter\<close> has returned: throughout the filtering
  \<open>out.length\<close> is the length of the unfiltered array.
\<close>

definition compressTokens :: "jstring list \<Rightarrow> real \<Rightarrow> jstring list" where
  "compressTokens tokens wspan =
     (if tokens = [] then tokens
      else
        let currentSlot = wspan / real (length tokens) in
        if currentSlot \<ge> MIN_SLOT \<and> length tokens \<le> WORD_EVENT_CAP then tokens
        else
          let out = tokens;
              out1 = (if length out > KEEP_AT_LEAST
                      then filter (\<lambda>t. \<not> (t \<in> set DROPPABLE \<and> length out > KEEP_AT_LEAST)) out
                      else out);
              targetByTime = max (int KEEP_AT_LEAST) \<lceil>wspan / MIN_SLOT\<rceil>;
              target = min (int WORD_EVENT_CAP) targetByTime
          in dropLoop target out1)"

definition mkEvent :: "real \<Rightarrow> string \<Rightarrow> real \<Rightarrow> VisemeEvent" where
  "mkEvent t n d = \<lparr> atT = t, name = n, duration = d, peak = Some 1,
                     attack = Some ATTACK, decay = Some DECAY \<rparr>"

text \<open>The body of the loop over the tokens: the events of token \<open>i\<close>.\<close>

definition tokenEvents :: "real \<Rightarrow> real \<Rightarrow> real \<Rightarrow> nat \<Rightarrow> jstring \<Rightarrow> VisemeEvent list" where
  "tokenEvents wstart wend slot i t =
     (let base = wstart + real i * slot;
          endSec = min wend (base + slot);
          names0 = resolveTokenToVisemes t;
          names = (if names0 = [] then [''viseme_E''] else names0)
      in case names of
           [] \<Rightarrow> []
         | [n] \<Rightarrow>
             (let dur = max MIN_DUR (min MAX_DUR (endSec - base))
              in if dur > 0 then [mkEvent base n dur] else [])
         | n0 # n1 # rest \<Rightarrow>
             (let half = (endSec - base) / 2;
                  durHalf = max (MIN_DUR * 0.75) (min (MAX_DUR * 0.75) half)
              in if durHalf > 0
                 then [mkEvent base n0 durHalf, mkEvent (base + half * SPLIT_OVERLAP) n1 durHalf]
                 else []))"

text \<open>The final clamp of \<open>e.at\<close> into the word span (\<open>e.at\<close> is finite in this model).\<close>

definition clampAt :: "real \<Rightarrow> real \<Rightarrow> VisemeEvent \<Rightarrow> VisemeEvent" where
  "clampAt wstart wend e =
     (let e1 = (if atT e < wstart then e\<lparr> atT := wstart \<rparr> else e)
      in if atT e1 > wend then e1\<lparr> atT := wend \<rparr> else e1)"

text \<open>
  \<open>wordToVisemeEvents\<close> after its first line, with the result of \<open>tokenizeIPA\<close>
  as \<open>tokensRaw\<close>. \<open>span = Math.max(0, w.end - w.start)\<close> is NaN, infinite or 0
  as soon as one of the two times is not finite, and the function then returns
  no event. If compression leaves no token, \<open>slot\<close> is \<open>Infinity\<close> in the source
  and the loop body never runs; here the division by 0 is never read either.
\<close>

definition allocateEvents :: "jstring list \<Rightarrow> WordTiming \<Rightarrow> VisemeEvent list" where
  "allocateEvents tokensRaw w =
     (case (start w, endT w) of
        (Fin s, Fin e) \<Rightarrow>
          (let wspan = max 0 (e - s) in
           if tokensRaw = [] \<or> wspan \<le> 0 then []
           else
             let tokens = compressTokens tokensRaw wspan;
                 slot = max MIN_SLOT (wspan / real (length tokens));
                 evs = concat (map (\<lambda>(i, t). tokenEvents s e slot i t) (enumerate 0 tokens))
             in map (clampAt s e) evs)
      | _ \<Rightarrow> [])"

definition wordToVisemeEvents :: "unicode \<Rightarrow> WordTiming \<Rightarrow> VisemeEvent list" where
  "wordToVisemeEvents U w = allocateEvents (tokenizeIPA U (phoneme w)) w"

section \<open>Timeline curator (makeEventKey, decimateTimeline, pushWordsToTimeline)\<close>

definition BUCKET :: real where "BUCKET = 0.01"

definition makeEventKey :: "VisemeEvent \<Rightarrow> eventKey" where
  "makeEventKey ev = (name ev, round (atT ev / BUCKET))"

definition MAX_VIS_CHANGES_PER_SEC :: real where "MAX_VIS_CHANGES_PER_SEC = 10"
definition MIN_EVENT_GAP :: real where "MIN_EVENT_GAP = 1 / MAX_VIS_CHANGES_PER_SEC"
definition MERGE_SAME_GAP :: real where "MERGE_SAME_GAP = 0.05"

text \<open>\<open>x ?? 1\<close> on an optional number.\<close>

definition orOne :: "real option \<Rightarrow> real" where
  "orOne x = (case x of None \<Rightarrow> 1 | Some v \<Rightarrow> v)"

text \<open>
  Step 1 of \<open>decimateTimeline\<close>, one iteration: \<open>merged\<close> holds copies, and the
  merge updates the last of them in place.
\<close>

definition mergeStep :: "VisemeEvent list \<Rightarrow> VisemeEvent \<Rightarrow> VisemeEvent list" where
  "mergeStep merged e =
     (if merged \<noteq> [] \<and> name (last merged) = name e \<and>
         atT e - (atT (last merged) + duration (last merged)) \<le> MERGE_SAME_GAP
      then
        (let l = last merged;
             newEnd = max (atT l + duration l) (atT e + duration e)
         in butlast merged @
              [l\<lparr> duration := newEnd - atT l, peak := Some (max (orOne (peak l)) (orOne (peak e))) \<rparr>])
      else merged @ [e])"

text \<open>
  The score \<open>prefer\<close> of step 2 (\<open>prefer\<close> is reserved in Isabelle). \<open>t\<close> is the event's name, and it is looked up in
  \<open>V_MAP\<close>, whose keys are phoneme characters.
\<close>

definition preferScore :: "VisemeEvent \<Rightarrow> real" where
  "preferScore e =
     (let t = name e in
      (if hasKey V_MAP (js t) then 2 else 0) + (if t = ''viseme_CH'' then 1.5 else 0) +
      (if t = ''viseme_PP'' then 1 else 0))"

text \<open>
  Step 2, one iteration, on \<open>keep\<close> and \<open>lastAt\<close> (\<open>None\<close> is the initial
  \<open>-Infinity\<close>). On a replacement the source first shortens \<open>prev.duration\<close> and
  then overwrites the slot of \<open>prev\<close> in \<open>keep\<close> with \<open>e\<close>: \<open>prev\<close> is no longer
  part of the result, so the shortening is not visible in it.
\<close>

definition rateStep :: "VisemeEvent list \<times> real option \<Rightarrow> VisemeEvent \<Rightarrow> VisemeEvent list \<times> real option" where
  "rateStep s e =
     (case s of (keep, lastAt) \<Rightarrow>
        if (case lastAt of None \<Rightarrow> True | Some l \<Rightarrow> atT e - l \<ge> MIN_EVENT_GAP) \<or> keep = []
        then (keep @ [e], Some (atT e))
        else if preferScore e > preferScore (last keep)
        then (butlast keep @ [e], Some (atT e))
        else (keep, lastAt))"

definition decimateTimeline :: "VisemeEvent list \<Rightarrow> VisemeEvent list" where
  "decimateTimeline events =
     (if length events \<le> 1 then events
      else
        let merged = foldl mergeStep [] events
        in fst (foldl rateStep ([], None) merged))"

text \<open>The test \<open>!w.word || /^[\s,.;:!?-]+$/.test(w.word)\<close>.\<close>

definition punctuationOnly :: "jstring \<Rightarrow> bool" where
  "punctuationOnly txt = (txt = [] \<or> list_all (\<lambda>c. isSpace c \<or> c \<in> set (js '',.;:!?-'')) txt)"

text \<open>The inner loop body: one event against the set of seen keys.\<close>

definition pushEvent :: "VisemeEvent \<Rightarrow> eventKey set \<times> VisemeEvent list \<Rightarrow> eventKey set \<times> VisemeEvent list" where
  "pushEvent ev s =
     (case s of (seen, pending) \<Rightarrow>
        if makeEventKey ev \<in> seen then (seen, pending)
        else (insert (makeEventKey ev) seen, pending @ [ev]))"

definition pushWord :: "unicode \<Rightarrow> WordTiming \<Rightarrow> eventKey set \<times> VisemeEvent list \<Rightarrow> eventKey set \<times> VisemeEvent list" where
  "pushWord U w s =
     (if punctuationOnly (word w) then s
      else fold pushEvent (wordToVisemeEvents U w) s)"

text \<open>
  \<open>Array.prototype.sort\<close> is stable, as \<open>sort_key\<close> is. The words that reach
  \<open>pushWordsToTimeline\<close> come from the Normalizer and have finite times.
\<close>

definition pushWordsToTimeline :: "unicode \<Rightarrow> WordTiming list \<Rightarrow> LipState \<Rightarrow> LipState" where
  "pushWordsToTimeline U wordsAbs st =
     (if wordsAbs = [] then st
      else
        let sorted = sort_key (\<lambda>w. finVal (start w)) wordsAbs;
            (seen, pending) = fold (pushWord U) sorted (seenEvents st, pendingEvents st)
        in st\<lparr> seenEvents := seen,
                pendingEvents := decimateTimeline (sort_key atT pending) \<rparr>)"

text \<open>\<open>onWordTiming\<close> on a batch (a single word is the batch of that word).\<close>

definition onWordTiming :: "unicode \<Rightarrow> WordTiming list \<Rightarrow> LipState \<Rightarrow> LipState" where
  "onWordTiming U content st =
     (let (adjusted, seg) = normalizeWordsToAbsolute content (segState st);
          st1 = st\<lparr> segState := seg \<rparr>
      in if t0 st1 \<noteq> None then pushWordsToTimeline U adjusted st1
         else st1\<lparr> wordQueue := wordQueue st1 @ adjusted \<rparr>)"

section \<open>Playback stop (UseTTS.onPlaybackStopped)\<close>

definition onPlaybackStopped :: "LipState \<Rightarrow> LipState" where
  "onPlaybackStopped st =
     st\<lparr> t0 := None, pendingEvents := [], activeEnvelopes := [],
         segState := \<lparr> segOffset = 0, lastAbsEnd = 0 \<rparr>, seenEvents := {} \<rparr>"

section \<open>Playback scheduler (useAvatarLipSync)\<close>

definition DEF_ATTACK :: real where "DEF_ATTACK = 0.03"
definition DEF_DECAY :: real where "DEF_DECAY = 0.04"
definition MORPH_CAP :: real where "MORPH_CAP = 0.9"

definition perVisemeGain :: "string \<Rightarrow> real option" where
  "perVisemeGain = map_of
    [(''viseme_PP'', 1.0),
     (''viseme_aa'', 0.95), (''viseme_I'', 0.95), (''viseme_O'', 0.95),
     (''viseme_U'', 0.95), (''viseme_E'', 0.95),
     (''viseme_SS'', 0.8), (''viseme_FF'', 0.8),
     (''viseme_RR'', 0.6),
     (''viseme_DD'', 0.9), (''viseme_kk'', 0.9),
     (''viseme_CH'', 0.85),
     (''viseme_nn'', 0.9)]"

definition fitRamps :: "real \<Rightarrow> real option \<Rightarrow> real option \<Rightarrow> real \<times> real" where
  "fitRamps dur att dec =
     (let a0 = max 0 (case att of None \<Rightarrow> DEF_ATTACK | Some x \<Rightarrow> x);
          d0 = max 0 (case dec of None \<Rightarrow> DEF_DECAY | Some x \<Rightarrow> x);
          a = min a0 (dur * 0.4);
          d = min d0 (dur * 0.4)
      in if a + d \<le> dur \<or> dur \<le> 0 then (a, d)
         else (let scale = dur / (a + d) in (a * scale, d * scale)))"

definition envValueFromCountdown :: "ActiveEnv \<Rightarrow> real" where
  "envValueFromCountdown env =
     (let elapsed = total env - timeLeft env in
      if elapsed \<le> 0 \<or> total env \<le> 0 then 0
      else
        let hold = max 0 (total env - envAttack env - envDecay env) in
        if elapsed < envAttack env
        then (elapsed / max (1 / 1000000) (envAttack env)) * envPeak env
        else if elapsed < envAttack env + hold then envPeak env
        else
          (let td = elapsed - (envAttack env + hold)
           in max 0 (envPeak env * (1 - td / max (1 / 1000000) (envDecay env)))))"

definition activate :: "VisemeEvent \<Rightarrow> ActiveEnv" where
  "activate ev =
     (let (a, d) = fitRamps (duration ev) (attack ev) (decay ev)
      in \<lparr> envName = name ev, timeLeft = duration ev, total = duration ev,
           envPeak = min 1 (max 0 (orOne (peak ev))), envAttack = a, envDecay = d \<rparr>)"

text \<open>The \<open>while\<close> loop of \<open>promoteDueEvents\<close>: shift the head of the pending queue while it is due.\<close>

fun promoteDueEvents :: "real \<Rightarrow> VisemeEvent list \<Rightarrow> ActiveEnv list \<Rightarrow> VisemeEvent list \<times> ActiveEnv list" where
  "promoteDueEvents now [] active = ([], active)"
| "promoteDueEvents now (ev # evs) active =
     (if atT ev \<le> now then promoteDueEvents now evs (active @ [activate ev])
      else (ev # evs, active))"

text \<open>
  \<open>byName\<close> is a \<open>Map\<close>, iterated in insertion order: an association list in
  which \<open>set\<close> replaces the value of a present key in place and appends a new key.
\<close>

fun mapSet :: "string \<Rightarrow> real \<Rightarrow> (string \<times> real) list \<Rightarrow> (string \<times> real) list" where
  "mapSet k v [] = [(k, v)]"
| "mapSet k v (p # ps) = (if fst p = k then (k, v) # ps else p # mapSet k v ps)"

definition mapGetOr0 :: "(string \<times> real) list \<Rightarrow> string \<Rightarrow> real" where
  "mapGetOr0 m k = (case map_of m k of None \<Rightarrow> 0 | Some v \<Rightarrow> v)"

text \<open>
  Step 2 of the frame, one envelope. The table of gains is a parameter;
  the hook's own table is \<open>perVisemeGain\<close>.
\<close>

definition aggStep :: "(string \<Rightarrow> real option) \<Rightarrow> ActiveEnv \<Rightarrow> (string \<times> real) list \<Rightarrow> (string \<times> real) list" where
  "aggStep gains env byName =
     (let v = envValueFromCountdown env in
      if v \<le> 0 then byName
      else
        let gain = (case gains (envName env) of None \<Rightarrow> 1 | Some g \<Rightarrow> g);
            val = min MORPH_CAP (v * gain)
        in if val > mapGetOr0 byName (envName env) then mapSet (envName env) val byName
           else byName)"

text \<open>
  One frame. \<open>ctxTime\<close> is \<open>audioCtxRef.current.currentTime\<close>, \<open>None\<close> without an
  audio context. The result is the list of the calls \<open>setViseme(name, val)\<close> of
  step 3, in order, and the state after the frame; \<open>setViseme\<close> stores \<open>val\<close> as it
  is at the index of the shape in each mesh that has the shape.
\<close>

definition useFrame :: "(string \<Rightarrow> real option) \<Rightarrow> real option \<Rightarrow> real \<Rightarrow> LipState \<Rightarrow> (string \<times> real) list \<times> LipState" where
  "useFrame gains ctxTime rawDt st =
     (case (ctxTime, t0 st) of
        (Some currentTime, Some t0v) \<Rightarrow>
          (let dt = min (max rawDt 0) 0.1;
               now = currentTime - t0v;
               (pending, active) = promoteDueEvents now (pendingEvents st) (activeEnvelopes st);
               byName = fold (aggStep gains) active [];
               counted = map (\<lambda>env. env\<lparr> timeLeft := timeLeft env - dt \<rparr>) active
           in (byName, st\<lparr> pendingEvents := pending,
                            activeEnvelopes := filter (\<lambda>e. timeLeft e > 0) counted \<rparr>))
      | _ \<Rightarrow> ([], st))"

section \<open>Double-precision arithmetic\<close>

text \<open>
  The numbers of the source are IEEE 754 doubles: every arithmetic result is the
  real result rounded to the nearest number with a 53-bit significand, ties to
  the even significand. \<open>fl\<close> is that rounding, for results within the normal
  range of doubles (the times and durations of this program are seconds, far
  from overflow and from subnormal numbers). A decimal literal of the source,
  such as \<open>0.1\<close>, denotes \<open>fl\<close> of the decimal.
\<close>

text \<open>The number of binary digits of a positive integer.\<close>

function bitLength :: "int \<Rightarrow> int" where
  "bitLength n = (if n \<le> 0 then 0 else 1 + bitLength (n div 2))"
  by pat_completeness auto
termination
  by (relation "measure nat") auto

declare bitLength.simps [simp del]

text \<open>The exponent \<open>e\<close> with \<open>2^e \<le> |x| < 2^(e+1)\<close>, for \<open>x\<close> other than 0.\<close>

definition binExponent :: "real \<Rightarrow> int" where
  "binExponent x =
     (let a = \<bar>x\<bar> in
      if a \<ge> 1 then bitLength \<lfloor>a\<rfloor> - 1
      else - bitLength (\<lceil>1 / a\<rceil> - 1))"

definition pow2 :: "int \<Rightarrow> real" where
  "pow2 k = (if k \<ge> 0 then 2 ^ nat k else 1 / 2 ^ nat (- k))"

text \<open>Rounding to the nearest integer, ties to the even one.\<close>

definition roundHalfEven :: "real \<Rightarrow> int" where
  "roundHalfEven y =
     (let f = \<lfloor>y\<rfloor>; r = y - of_int f in
      if r < 1 / 2 then f
      else if r > 1 / 2 then f + 1
      else if even f then f else f + 1)"

definition fl :: "real \<Rightarrow> real" where
  "fl x =
     (if x = 0 then 0
      else let u = pow2 (binExponent x - 52) in of_int (roundHalfEven (x / u)) * u)"

section \<open>The normalizer and the allocator in double arithmetic\<close>

text \<open>
  The functions of the source that compute with times, with every arithmetic
  result and every decimal literal passed through a rounding \<open>rd\<close>. With
  \<open>rd = fl\<close> this is the arithmetic of the source; with the identity it is the
  exact arithmetic of the definitions above. Comparisons, \<open>Math.min\<close>,
  \<open>Math.max\<close> and \<open>Math.ceil\<close> do not round.
\<close>

definition shiftWordR :: "(real \<Rightarrow> real) \<Rightarrow> real \<Rightarrow> WordTiming \<Rightarrow> WordTiming" where
  "shiftWordR rd off w =
     w\<lparr> start := Fin (rd (finVal (start w) + off)), endT := Fin (rd (finVal (endT w) + off)) \<rparr>"

definition restitchR :: "(real \<Rightarrow> real) \<Rightarrow> SegState \<Rightarrow> real \<Rightarrow> SegState" where
  "restitchR rd seg localMin =
     (let candAbsMin = rd (segOffset seg + localMin) in
      if rd (candAbsMin + rd EPS) < lastAbsEnd seg then
        (let backstep = rd (lastAbsEnd seg - candAbsMin) in
         if backstep > rd HARD_RESET_BACKSTEP
         then seg\<lparr> segOffset := rd (lastAbsEnd seg + rd GAP_PAD) \<rparr>
         else seg\<lparr> segOffset := rd (segOffset seg + rd (backstep + rd GAP_PAD)) \<rparr>)
      else seg)"

definition normalizeWordsToAbsoluteR ::
  "(real \<Rightarrow> real) \<Rightarrow> WordTiming list \<Rightarrow> SegState \<Rightarrow> WordTiming list \<times> SegState" where
  "normalizeWordsToAbsoluteR rd words seg =
     (if words = [] then ([], seg)
      else case cleanWords words of
        [] \<Rightarrow> ([], seg)
      | c # cs \<Rightarrow>
          (let localMin = localMinOf c cs;
               localMax = localMaxOf c cs;
               seg1 = restitchR rd seg localMin;
               adjusted = map (shiftWordR rd (segOffset seg1)) (c # cs)
           in (adjusted,
               seg1\<lparr> lastAbsEnd := max (lastAbsEnd seg1) (rd (segOffset seg1 + localMax)) \<rparr>)))"

definition dropScoreR :: "(real \<Rightarrow> real) \<Rightarrow> jstring \<Rightarrow> real" where
  "dropScoreR rd t = rd (rd (tokenPriority t) + (if isVowelToken t then 100 else 0))"

fun lowestScanR ::
  "(real \<Rightarrow> real) \<Rightarrow> jstring list \<Rightarrow> nat \<Rightarrow> real option \<Rightarrow> nat option \<Rightarrow> nat option" where
  "lowestScanR rd [] i best dropIdx = dropIdx"
| "lowestScanR rd (t # ts) i best dropIdx =
     (if (case best of None \<Rightarrow> True | Some b \<Rightarrow> dropScoreR rd t < b)
      then lowestScanR rd ts (Suc i) (Some (dropScoreR rd t)) (Some i)
      else lowestScanR rd ts (Suc i) best dropIdx)"

lemma lowestScanR_bound:
  "lowestScanR rd ts i best d = Some j \<Longrightarrow> d = Some j \<or> (i \<le> j \<and> j < i + length ts)"
proof (induction ts arbitrary: i best d)
  case Nil
  then show ?case by simp
next
  case (Cons t ts)
  show ?case
  proof (cases "case best of None \<Rightarrow> True | Some b \<Rightarrow> dropScoreR rd t < b")
    case True
    then have "lowestScanR rd ts (Suc i) (Some (dropScoreR rd t)) (Some i) = Some j"
      using Cons.prems by simp
    from Cons.IH [OF this] show ?thesis by auto
  next
    case False
    then have "lowestScanR rd ts (Suc i) best d = Some j"
      using Cons.prems by simp
    from Cons.IH [OF this] show ?thesis by auto
  qed
qed

function dropLoopR :: "(real \<Rightarrow> real) \<Rightarrow> int \<Rightarrow> jstring list \<Rightarrow> jstring list" where
  "dropLoopR rd target out =
     (if int (length out) > target then
        (case lowestScanR rd out 0 None None of
           None \<Rightarrow> out
         | Some dropIdx \<Rightarrow> dropLoopR rd target (splice1 dropIdx out))
      else out)"
  by pat_completeness auto
termination
proof (relation "measure (\<lambda>(rd, target, out). length out)")
  show "wf (measure (\<lambda>(rd :: real \<Rightarrow> real, target :: int, out :: jstring list). length out))"
    by simp
next
  fix rd :: "real \<Rightarrow> real" and target :: int and out :: "jstring list" and x2 :: nat
  assume "lowestScanR rd out 0 None None = Some x2"
  from lowestScanR_bound [OF this] have "x2 < length out" by simp
  then show "((rd, target, splice1 x2 out), (rd, target, out)) \<in>
               measure (\<lambda>(rd, target, out). length out)"
    by (simp add: splice1_def)
qed

definition compressTokensR :: "(real \<Rightarrow> real) \<Rightarrow> jstring list \<Rightarrow> real \<Rightarrow> jstring list" where
  "compressTokensR rd tokens wspan =
     (if tokens = [] then tokens
      else
        let currentSlot = rd (wspan / real (length tokens)) in
        if currentSlot \<ge> rd MIN_SLOT \<and> length tokens \<le> WORD_EVENT_CAP then tokens
        else
          let out = tokens;
              out1 = (if length out > KEEP_AT_LEAST
                      then filter (\<lambda>t. \<not> (t \<in> set DROPPABLE \<and> length out > KEEP_AT_LEAST)) out
                      else out);
              targetByTime = max (int KEEP_AT_LEAST) \<lceil>rd (wspan / rd MIN_SLOT)\<rceil>;
              target = min (int WORD_EVENT_CAP) targetByTime
          in dropLoopR rd target out1)"

definition mkEventR :: "(real \<Rightarrow> real) \<Rightarrow> real \<Rightarrow> string \<Rightarrow> real \<Rightarrow> VisemeEvent" where
  "mkEventR rd t n d = \<lparr> atT = t, name = n, duration = d, peak = Some 1,
                         attack = Some (rd ATTACK), decay = Some (rd DECAY) \<rparr>"

definition tokenEventsR ::
  "(real \<Rightarrow> real) \<Rightarrow> real \<Rightarrow> real \<Rightarrow> real \<Rightarrow> nat \<Rightarrow> jstring \<Rightarrow> VisemeEvent list" where
  "tokenEventsR rd wstart wend slot i t =
     (let base = rd (wstart + rd (real i * slot));
          endSec = min wend (rd (base + slot));
          names0 = resolveTokenToVisemes t;
          names = (if names0 = [] then [''viseme_E''] else names0)
      in case names of
           [] \<Rightarrow> []
         | [n] \<Rightarrow>
             (let dur = max (rd MIN_DUR) (min (rd MAX_DUR) (rd (endSec - base)))
              in if dur > 0 then [mkEventR rd base n dur] else [])
         | n0 # n1 # rest \<Rightarrow>
             (let half = rd (rd (endSec - base) / 2);
                  durHalf = max (rd (rd MIN_DUR * rd 0.75)) (min (rd (rd MAX_DUR * rd 0.75)) half)
              in if durHalf > 0
                 then [mkEventR rd base n0 durHalf,
                       mkEventR rd (rd (base + rd (half * rd SPLIT_OVERLAP))) n1 durHalf]
                 else []))"

definition allocateEventsR :: "(real \<Rightarrow> real) \<Rightarrow> jstring list \<Rightarrow> WordTiming \<Rightarrow> VisemeEvent list" where
  "allocateEventsR rd tokensRaw w =
     (case (start w, endT w) of
        (Fin s, Fin e) \<Rightarrow>
          (let wspan = max 0 (rd (e - s)) in
           if tokensRaw = [] \<or> wspan \<le> 0 then []
           else
             let tokens = compressTokensR rd tokensRaw wspan;
                 slot = max (rd MIN_SLOT) (rd (wspan / real (length tokens)));
                 evs = concat (map (\<lambda>(i, t). tokenEventsR rd s e slot i t) (enumerate 0 tokens))
             in map (clampAt s e) evs)
      | _ \<Rightarrow> [])"

definition wordToVisemeEventsR :: "(real \<Rightarrow> real) \<Rightarrow> unicode \<Rightarrow> WordTiming \<Rightarrow> VisemeEvent list" where
  "wordToVisemeEventsR rd U w = allocateEventsR rd (tokenizeIPA U (phoneme w)) w"

section \<open>Example inputs\<close>

definition mkWord :: "string \<Rightarrow> string \<Rightarrow> real \<Rightarrow> real \<Rightarrow> WordTiming" where
  "mkWord txt ph s e = \<lparr> word = js txt, phoneme = js ph, start = Fin s, endT = Fin e \<rparr>"

text \<open>A one-word batch, its normalisation after a first 0.3s batch, and the state then.\<close>

definition relBatch :: "WordTiming list" where
  "relBatch = [mkWord ''dog'' ''dog'' 0 0.3]"

definition absBatch :: "WordTiming list" where
  "absBatch = [mkWord ''dog'' ''dog'' 0.33 0.63]"

definition absSeg :: SegState where
  "absSeg = \<lparr> segOffset = 0.33, lastAbsEnd = 0.63 \<rparr>"

definition lateBatch :: "WordTiming list" where
  "lateBatch = [mkWord ''dog'' ''dog'' 0.298 0.5, mkWord ''x'' ''x'' 0.7 0.6]"

text \<open>
  One instance of the platform functions: both are the identity. A string whose
  code units are all below U+0300 is in NFC and has no character of category
  Mark, so on such strings this is what the platform computes.
\<close>

definition plainUnicode :: unicode where
  "plainUnicode = \<lparr> normalizeNFC = (\<lambda>s. s), stripMarks = (\<lambda>s. s) \<rparr>"

text \<open>The phonetic transcription of "cat": k, U+00E6, t.\<close>

definition catPhoneme :: jstring where
  "catPhoneme = js ''k'' @ [c_ash] @ js ''t''"

definition catWord :: WordTiming where
  "catWord = \<lparr> word = js ''cat'', phoneme = catPhoneme, start = Fin 0.0, endT = Fin 0.3 \<rparr>"

text \<open>The state of an utterance that is playing since clock time 0, with nothing scheduled yet.\<close>

definition playingState :: LipState where
  "playingState = initState\<lparr> t0 := Some 0 \<rparr>"

text \<open>A glottal stop, U+0251 and h: a short interjection.\<close>

definition ahTokens :: "jstring list" where
  "ahTokens = [[c_glottal], [c_script_a], js ''h'']"

text \<open>
  The words "at" (0 to 0.15s) and "it" (0.15s to 0.45s) with their tokens, and
  the events that the Allocator gives for them, in order of onset.
\<close>

definition atWord :: WordTiming where
  "atWord = mkWord ''at'' ''at'' 0 0.15"

definition itWord :: WordTiming where
  "itWord = mkWord ''it'' ''it'' 0.15 0.45"

definition atItEvents :: "VisemeEvent list" where
  "atItEvents = [mkEvent 0 ''viseme_aa'' 0.1, mkEvent 0.1 ''viseme_DD'' 0.08,
                 mkEvent 0.15 ''viseme_I'' 0.15, mkEvent 0.3 ''viseme_DD'' 0.15]"

text \<open>
  The code units that every step of \<open>normalizePhonemeString\<close> written in the
  source leaves alone: not replaced, not removed, not an upper-case letter, not
  white space.
\<close>

definition plainUnit :: "nat \<Rightarrow> bool" where
  "plainUnit c = (c \<notin> set [c_script_g, c_tesh, c_dezh, c_schwa_hook, c_rev_open_e_hook,
                              c_stress1, c_stress2, 0x2E, c_length, 0x361, 0x35C] \<and>
                  (c < 0x41 \<or> 0x5A < c) \<and> \<not> isSpace c)"

text \<open>
  A playing state with one event due and one envelope half-way through its
  100ms: the due event is promoted with nothing elapsed yet, the envelope is in
  its sustain phase.
\<close>

definition frameState :: LipState where
  "frameState = playingState\<lparr>
     pendingEvents := [mkEvent 0 ''viseme_PP'' 0.1],
     activeEnvelopes := [\<lparr> envName = ''viseme_aa'', timeLeft = 0.05, total = 0.1,
                           envPeak = 1, envAttack = 0.03, envDecay = 0.04 \<rparr>] \<rparr>"

text \<open>The dedup keys that a word contributes, and what identifies an event in the queue.\<close>

definition wordKeys :: "unicode \<Rightarrow> WordTiming \<Rightarrow> eventKey set" where
  "wordKeys U w =
     (if punctuationOnly (word w) then {} else makeEventKey ` set (wordToVisemeEvents U w))"

definition shapeAt :: "VisemeEvent \<Rightarrow> string \<times> real" where
  "shapeAt e = (name e, atT e)"

text \<open>
  The word "cat" spoken over 0.6s, its three events when it starts at \<open>t\<close>, their
  dedup keys when \<open>t\<close> is the bucket \<open>b\<close>, and the state after the word has been
  pushed to the timeline of \<open>playingState\<close>.
\<close>

definition slowCat :: WordTiming where
  "slowCat = \<lparr> word = js ''cat'', phoneme = catPhoneme, start = Fin 0, endT = Fin 0.6 \<rparr>"

definition catEvents :: "real \<Rightarrow> VisemeEvent list" where
  "catEvents t = [mkEvent t ''viseme_kk'' 0.18, mkEvent (t + 0.2) ''viseme_aa'' 0.18,
                  mkEvent (t + 0.4) ''viseme_DD'' 0.18]"

definition catKeys :: "int \<Rightarrow> eventKey set" where
  "catKeys b = {(''viseme_kk'', b), (''viseme_aa'', b + 20), (''viseme_DD'', b + 40)}"

definition catPushed :: LipState where
  "catPushed = playingState\<lparr> pendingEvents := catEvents 0, seenEvents := catKeys 0 \<rparr>"

text \<open>
  The word "cat" of the scenario with the doubles that its times denote, and a
  one-word batch with the segment state after a first batch of 0.3s.
\<close>

definition catDouble :: WordTiming where
  "catDouble = \<lparr> word = js ''cat'', phoneme = catPhoneme, start = Fin 0, endT = Fin (fl 0.3) \<rparr>"





section \<open>Properties of the normalizer\<close>

lemma cleanWords_valid: "cleanWords ws = filter validWord ws"
  by (induction ws) (auto simp: cleanWords_def validWord_def)

lemma restitch_lastAbsEnd: "lastAbsEnd (restitch seg m) = lastAbsEnd seg"
  by (simp add: restitch_def Let_def)

lemma normalize_lastAbsEnd_mono:
  "lastAbsEnd seg \<le> lastAbsEnd (snd (normalizeWordsToAbsolute ws seg))"
  by (simp add: normalizeWordsToAbsolute_def Let_def restitch_lastAbsEnd split: list.split)

text \<open>
  C8: across any sequence of Normalizer calls the stored \<open>lastAbsEnd\<close> never
  decreases: it is at least its value before the calls (and so after every
  single call at least its value before that call).
\<close>

theorem lastAbsEnd_non_decreasing:
  "lastAbsEnd seg \<le> lastAbsEnd (normalizeAll batches seg)"
proof (induction batches arbitrary: seg)
  case Nil
  show ?case by (simp add: normalizeAll_def)
next
  case (Cons b bs)
  have "lastAbsEnd seg \<le> lastAbsEnd (snd (normalizeWordsToAbsolute b seg))"
    by (rule normalize_lastAbsEnd_mono)
  also have "\<dots> \<le> lastAbsEnd (normalizeAll bs (snd (normalizeWordsToAbsolute b seg)))"
    by (rule Cons.IH)
  finally show ?case by (simp add: normalizeAll_def)
qed

lemma Fin_finVal: "isFinite n \<Longrightarrow> Fin (finVal n) = n"
  by (cases n) simp_all

lemma shiftWord_zero: "validWord w \<Longrightarrow> shiftWord 0 w = w"
  by (simp add: shiftWord_def validWord_def Fin_finVal)

lemma fold_max_max: "fold max xs (max a b) = max (a::real) (fold max xs b)"
proof (induction xs arbitrary: b)
  case Nil
  show ?case by simp
next
  case (Cons x xs)
  have "max x (max a b) = max a (max x b)" by (rule max.left_commute)
  then show ?case using Cons.IH [of "max x b"] by simp
qed

lemmas normalize_eval =
  normalizeWordsToAbsolute_def cleanWords_def localMinOf_def localMaxOf_def restitch_def
  shiftWord_def EPS_def GAP_PAD_def HARD_RESET_BACKSTEP_def Let_def mkWord_def

text \<open>
  C7 as stated fails. The batch \<open>absBatch\<close> is the Normalizer's own output for
  \<open>relBatch\<close> (with \<open>absSeg\<close> the state it leaves), and it is non-regressing in
  that state; normalizing it again moves every word by the segment offset 0.33
  once more and advances \<open>lastAbsEnd\<close>.
\<close>

theorem renormalize_counterexample:
  "normalizeWordsToAbsolute relBatch \<lparr> segOffset = 0, lastAbsEnd = 0.3 \<rparr> = (absBatch, absSeg) \<and>
   nonRegressing absSeg absBatch \<and>
   normalizeWordsToAbsolute absBatch absSeg =
     ([mkWord ''dog'' ''dog'' 0.66 0.96], \<lparr> segOffset = 0.33, lastAbsEnd = 0.96 \<rparr>) \<and>
   fst (normalizeWordsToAbsolute absBatch absSeg) \<noteq> absBatch \<and>
   snd (normalizeWordsToAbsolute absBatch absSeg) \<noteq> absSeg"
  by (simp add: normalize_eval nonRegressing_def relBatch_def absBatch_def absSeg_def)

lemma map_shiftWord_zero: "list_all validWord xs \<Longrightarrow> map (shiftWord 0) xs = xs"
  by (induction xs) (simp_all add: shiftWord_zero)

lemma cleanWords_all_valid: "list_all validWord (cleanWords ws)"
  by (simp add: cleanWords_valid list_all_iff)

text \<open>
  C7, amended: for every non-regressing batch, when the segment offset is 0 the
  Normalizer returns every surviving word with unchanged start and end times and
  leaves the segment offset at 0; \<open>lastAbsEnd\<close> becomes the maximum of its old
  value and the ends of the surviving words (so the segment state is unchanged
  exactly when no surviving word ends after \<open>lastAbsEnd\<close>).
\<close>

theorem nonregressing_zero_offset_keeps_times:
  assumes nr: "nonRegressing seg ws" and z: "segOffset seg = 0"
  shows "fst (normalizeWordsToAbsolute ws seg) = cleanWords ws \<and>
         segOffset (snd (normalizeWordsToAbsolute ws seg)) = 0 \<and>
         lastAbsEnd (snd (normalizeWordsToAbsolute ws seg)) =
           fold max (map (\<lambda>w. finVal (endT w)) (cleanWords ws)) (lastAbsEnd seg)"
proof (cases "cleanWords ws")
  case Nil
  then show ?thesis using z by (simp add: normalizeWordsToAbsolute_def)
next
  case (Cons c cs)
  have ne: "ws \<noteq> []" using Cons by (auto simp: cleanWords_def)
  have rs: "restitch seg (localMinOf c cs) = seg"
    using nr Cons by (simp add: nonRegressing_def restitch_def Let_def)
  have valid: "list_all validWord (c # cs)"
    using cleanWords_all_valid [of ws] Cons by simp
  have out: "map (shiftWord 0) (c # cs) = c # cs"
    using valid by (rule map_shiftWord_zero)
  have mx: "max (lastAbsEnd seg) (localMaxOf c cs) =
            fold max (map (\<lambda>w. finVal (endT w)) (c # cs)) (lastAbsEnd seg)"
    using fold_max_max [of "map (\<lambda>w. finVal (endT w)) cs" "lastAbsEnd seg" "finVal (endT c)"]
    by (simp add: localMaxOf_def max.commute)
  have eq: "normalizeWordsToAbsolute ws seg =
        (c # cs, seg\<lparr> lastAbsEnd := max (lastAbsEnd seg) (localMaxOf c cs) \<rparr>)"
    using ne Cons rs z out by (simp add: normalizeWordsToAbsolute_def Let_def)
  show ?thesis using mx z Cons by (simp add: eq)
qed

theorem nonregressing_zero_offset_keeps_times_witness:
  "nonRegressing \<lparr> segOffset = 0, lastAbsEnd = 0.3 \<rparr> lateBatch \<and>
   fst (normalizeWordsToAbsolute lateBatch \<lparr> segOffset = 0, lastAbsEnd = 0.3 \<rparr>) =
     [mkWord ''dog'' ''dog'' 0.298 0.5] \<and>
   lastAbsEnd (snd (normalizeWordsToAbsolute lateBatch \<lparr> segOffset = 0, lastAbsEnd = 0.3 \<rparr>)) = 0.5"
proof -
  have nr: "nonRegressing \<lparr> segOffset = 0, lastAbsEnd = 0.3 \<rparr> lateBatch"
    by (simp add: nonRegressing_def lateBatch_def normalize_eval)
  have cl: "cleanWords lateBatch = [mkWord ''dog'' ''dog'' 0.298 0.5]"
    by (simp add: lateBatch_def cleanWords_def mkWord_def)
  show ?thesis
    using nr nonregressing_zero_offset_keeps_times [OF nr] cl by (simp add: mkWord_def)
qed

section \<open>Properties of the tokenizer and the allocator\<close>

lemma replaceUnit_absent: "c \<notin> set s \<Longrightarrow> replaceUnit c r s = s"
  by (induction s) (simp_all add: replaceUnit_def)

lemma removeUnits_absent: "list_all (\<lambda>x. x \<notin> set cs) s \<Longrightarrow> removeUnits cs s = s"
  by (induction s) (simp_all add: removeUnits_def)

lemma concat_upperFix: "list_all (\<lambda>c. (c < 0x41 \<or> 0x5A < c)) s \<Longrightarrow> concat (map upperFix s) = s"
  by (induction s) (auto simp: upperFix_def)

lemma filter_no_space: "list_all (\<lambda>c. \<not> isSpace c) s \<Longrightarrow> filter (\<lambda>c. \<not> isSpace c) s = s"
  by (induction s) simp_all

lemma normalizePhonemeString_plain:
  assumes nfc: "normalizeNFC U s = s" and marks: "stripMarks U s = s" and plain: "list_all plainUnit s"
  shows "normalizePhonemeString U s = s"
proof -
  have in_set: "\<And>c. c \<in> set s \<Longrightarrow> plainUnit c"
    using plain by (simp add: list_all_iff)
  have r1: "replaceUnit c_script_g (js ''g'') s = s"
    by (rule replaceUnit_absent) (use in_set in \<open>auto simp: plainUnit_def\<close>)
  have r2: "replaceUnit c_tesh (js ''t'' @ [c_esh]) s = s"
    by (rule replaceUnit_absent) (use in_set in \<open>auto simp: plainUnit_def\<close>)
  have r3: "replaceUnit c_dezh (js ''d'' @ [c_ezh]) s = s"
    by (rule replaceUnit_absent) (use in_set in \<open>auto simp: plainUnit_def\<close>)
  have r4: "replaceUnit c_schwa_hook [c_schwa, c_turned_r] s = s"
    by (rule replaceUnit_absent) (use in_set in \<open>auto simp: plainUnit_def\<close>)
  have r5: "replaceUnit c_rev_open_e_hook [c_rev_open_e, c_turned_r] s = s"
    by (rule replaceUnit_absent) (use in_set in \<open>auto simp: plainUnit_def\<close>)
  have m1: "removeUnits [c_stress1, c_stress2, 0x2E] s = s"
    by (rule removeUnits_absent) (use in_set in \<open>auto simp: plainUnit_def list_all_iff\<close>)
  have m2: "removeUnits [c_length] s = s"
    by (rule removeUnits_absent) (use in_set in \<open>auto simp: plainUnit_def list_all_iff\<close>)
  have m3: "removeUnits [0x361, 0x35C] s = s"
    by (rule removeUnits_absent) (use in_set in \<open>auto simp: plainUnit_def list_all_iff\<close>)
  have u: "concat (map upperFix s) = s"
    by (rule concat_upperFix) (use in_set in \<open>auto simp: plainUnit_def list_all_iff\<close>)
  have f: "filter (\<lambda>c. \<not> isSpace c) s = s"
    by (rule filter_no_space) (use in_set in \<open>auto simp: plainUnit_def list_all_iff\<close>)
  show ?thesis
    unfolding normalizePhonemeString_def Let_def nfc r1 r2 r3 r4 r5 m1 m2 m3 marks u f by simp
qed

lemma plain_cat: "list_all plainUnit catPhoneme"
  by (simp add: catPhoneme_def js_def plainUnit_def isSpace_def)

lemmas tokenize_eval = js_def DIPHTHONGS_def VOWELS_def RHOTICS_def isSkipped_def isSpace_def

lemma tokenizeLoop_cat: "tokenizeLoop catPhoneme = [js ''k'', [c_ash], js ''t'']"
  by (simp add: catPhoneme_def tokenize_eval)

lemma tokenizeIPA_cat: "tokenizeIPA plainUnicode catPhoneme = [js ''k'', [c_ash], js ''t'']"
proof -
  have "normalizePhonemeString plainUnicode catPhoneme = catPhoneme"
    by (rule normalizePhonemeString_plain) (simp_all add: plainUnicode_def plain_cat)
  moreover have "catPhoneme \<noteq> []" by (simp add: catPhoneme_def)
  ultimately show ?thesis by (simp add: tokenizeIPA_def tokenizeLoop_cat)
qed

text \<open>
  C2 fails on the code: the three tokens glottal stop, U+0251, h (what the
  Tokenizer gives for that string) over a span of 0.25s are compressed to the
  single token U+0251, since step 1 removes every droppable token whenever the
  list had more than two tokens before the step.
\<close>

theorem compress_drops_below_two:
  "tokenizeIPA plainUnicode [c_glottal, c_script_a, 0x68] = ahTokens \<and>
   length ahTokens = 3 \<and>
   compressTokens ahTokens 0.25 = [[c_script_a]]"
proof -
  have "normalizePhonemeString plainUnicode [c_glottal, c_script_a, 0x68] = [c_glottal, c_script_a, 0x68]"
    by (rule normalizePhonemeString_plain) (simp_all add: plainUnicode_def plainUnit_def isSpace_def)
  moreover have "tokenizeLoop [c_glottal, c_script_a, 0x68] = ahTokens"
    by (simp add: ahTokens_def tokenize_eval)
  ultimately have "tokenizeIPA plainUnicode [c_glottal, c_script_a, 0x68] = ahTokens"
    by (simp add: tokenizeIPA_def)
  moreover have "length ahTokens = 3"
    by (simp add: ahTokens_def)
  moreover have "compressTokens ahTokens 0.25 = [[c_script_a]]"
    by code_simp
  ultimately show ?thesis by simp
qed

section \<open>Properties of the rounding\<close>




lemma pow2_nat: "pow2 (int n) = 2 ^ n"
  by (simp add: pow2_def)







lemmas fl_eval = fl_def binExponent_def roundHalfEven_def pow2_def bitLength.simps Let_def

text \<open>With the identity as rounding, the functions are the exact ones.\<close>

lemma shiftWordR_exact: "shiftWordR (\<lambda>x. x) off w = shiftWord off w"
  by (simp add: shiftWordR_def shiftWord_def)

lemma restitchR_exact: "restitchR (\<lambda>x. x) seg m = restitch seg m"
  by (simp add: restitchR_def restitch_def)

lemma normalizeR_exact:
  "normalizeWordsToAbsoluteR (\<lambda>x. x) ws seg = normalizeWordsToAbsolute ws seg"
  unfolding normalizeWordsToAbsoluteR_def normalizeWordsToAbsolute_def shiftWordR_exact
    restitchR_exact
  by (rule refl)

lemma dropScoreR_exact: "dropScoreR (\<lambda>x. x) t = dropScore t"
  by (simp add: dropScoreR_def dropScore_def)

lemma lowestScanR_exact: "lowestScanR (\<lambda>x. x) ts i best d = lowestScan ts i best d"
  by (induction ts arbitrary: i best d) (simp_all add: dropScoreR_exact split: option.splits)

lemma dropLoopR_exact: "dropLoopR (\<lambda>x. x) target out = dropLoop target out"
proof (induction target out rule: dropLoop.induct)
  case (1 target out)
  show ?case
  proof (cases "int (length out) > target")
    case False
    then show ?thesis
      by (subst dropLoopR.simps, subst dropLoop.simps) simp
  next
    case True
    show ?thesis
    proof (cases "lowestScan out 0 None None")
      case None
      with True show ?thesis
        by (subst dropLoopR.simps, subst dropLoop.simps) (simp add: lowestScanR_exact)
    next
      case (Some i)
      with True "1.IH" have
        "dropLoopR (\<lambda>x. x) target (splice1 i out) = dropLoop target (splice1 i out)"
        by simp
      with True Some show ?thesis
        by (subst dropLoopR.simps, subst dropLoop.simps) (simp add: lowestScanR_exact)
    qed
  qed
qed

lemma compressTokensR_exact: "compressTokensR (\<lambda>x. x) toks sp = compressTokens toks sp"
  unfolding compressTokensR_def compressTokens_def dropLoopR_exact
  by (rule refl)

lemma mkEventR_exact: "mkEventR (\<lambda>x. x) t n d = mkEvent t n d"
  by (simp add: mkEventR_def mkEvent_def)

lemma tokenEventsR_exact: "tokenEventsR (\<lambda>x. x) s e slot i t = tokenEvents s e slot i t"
  unfolding tokenEventsR_def tokenEvents_def mkEventR_exact
  by (rule refl)

lemma allocateEventsR_exact: "allocateEventsR (\<lambda>x. x) toks w = allocateEvents toks w"
  unfolding allocateEventsR_def allocateEvents_def compressTokensR_exact tokenEventsR_exact
  by (rule refl)

section \<open>The normalizer in double arithmetic\<close>


















section \<open>The allocator in double arithmetic\<close>

lemma cat_resolved:
  "resolveTokenToVisemes (js ''k'') = [''viseme_kk'']"
  "resolveTokenToVisemes [c_ash] = [''viseme_aa'']"
  "resolveTokenToVisemes (js ''t'') = [''viseme_DD'']"
  by code_simp+

lemma cat_not_droppable:
  "js ''k'' \<notin> set DROPPABLE" "[c_ash] \<notin> set DROPPABLE" "js ''t'' \<notin> set DROPPABLE"
  by (simp_all add: DROPPABLE_def js_def)

lemma cat_compress:
  "compressTokensR fl [js ''k'', [c_ash], js ''t''] (fl 0.3) = [js ''k'', [c_ash], js ''t'']"
proof -
  have slow: "\<not> fl (fl 0.3 / 3) \<ge> fl MIN_SLOT"
    by (simp add: MIN_SLOT_def fl_eval)
  have target: "min (int WORD_EVENT_CAP) (max 2 \<lceil>fl (fl 0.3 / fl MIN_SLOT)\<rceil>) = 3"
    by (simp add: MIN_SLOT_def WORD_EVENT_CAP_def fl_eval)
  have keep: "dropLoopR fl 3 [js ''k'', [c_ash], js ''t''] = [js ''k'', [c_ash], js ''t'']"
    by (subst dropLoopR.simps) simp
  show ?thesis
    unfolding compressTokensR_def
    using slow by (simp add: Let_def cat_not_droppable target keep KEEP_AT_LEAST_def del: dropLoopR.simps)
qed

lemma cat_slot: "max (fl MIN_SLOT) (fl (fl (3 / 10) / 3)) = fl (1 / 10)"
  by (simp add: MIN_SLOT_def fl_eval)

lemma cat_span: "max 0 (fl (fl (3 / 10))) = fl (3 / 10)" "\<not> fl (3 / 10) \<le> 0"
  by (simp_all add: fl_eval)

lemma cat_token0:
  "tokenEventsR fl 0 (fl (3 / 10)) (fl (1 / 10)) 0 (js ''k'') = [mkEventR fl 0 ''viseme_kk'' (fl (1 / 10))]"
  apply (simp add: tokenEventsR_def cat_resolved MIN_DUR_def MAX_DUR_def Let_def)
  apply (simp add: fl_eval)
  done

lemma cat_token1:
  "tokenEventsR fl 0 (fl (3 / 10)) (fl (1 / 10)) (Suc 0) [c_ash] =
     [mkEventR fl (fl (1 / 10)) ''viseme_aa'' (fl (1 / 10))]"
  apply (simp add: tokenEventsR_def cat_resolved MIN_DUR_def MAX_DUR_def Let_def)
  apply (simp add: fl_eval)
  done

lemma cat_token2:
  "tokenEventsR fl 0 (fl (3 / 10)) (fl (1 / 10)) (Suc (Suc 0)) (js ''t'') =
     [mkEventR fl (fl (1 / 5)) ''viseme_DD'' (fl (3 / 10) - fl (1 / 5))]"
  apply (simp add: tokenEventsR_def cat_resolved MIN_DUR_def MAX_DUR_def Let_def)
  apply (simp add: fl_eval)
  done

lemma cat_clamp:
  "clampAt 0 (fl (3 / 10)) (mkEventR fl 0 ''viseme_kk'' (fl (1 / 10))) =
     mkEventR fl 0 ''viseme_kk'' (fl (1 / 10))"
  "clampAt 0 (fl (3 / 10)) (mkEventR fl (fl (1 / 10)) ''viseme_aa'' (fl (1 / 10))) =
     mkEventR fl (fl (1 / 10)) ''viseme_aa'' (fl (1 / 10))"
  "clampAt 0 (fl (3 / 10)) (mkEventR fl (fl (1 / 5)) ''viseme_DD'' (fl (3 / 10) - fl (1 / 5))) =
     mkEventR fl (fl (1 / 5)) ''viseme_DD'' (fl (3 / 10) - fl (1 / 5))"
  by (simp_all add: clampAt_def mkEventR_def Let_def) (simp_all add: fl_eval)

lemma allocate_cat_double:
  "allocateEventsR fl [js ''k'', [c_ash], js ''t''] catDouble =
     [mkEventR fl 0 ''viseme_kk'' (fl 0.1), mkEventR fl (fl 0.1) ''viseme_aa'' (fl 0.1),
      mkEventR fl (fl 0.2) ''viseme_DD'' (fl 0.3 - fl 0.2)]"
  apply (simp add: allocateEventsR_def catDouble_def cat_span cat_compress cat_slot Let_def
      cat_token0 cat_token1 cat_token2 cat_clamp)
  done

lemma events_cat_double:
  "wordToVisemeEventsR fl plainUnicode catDouble =
     [mkEventR fl 0 ''viseme_kk'' (fl 0.1), mkEventR fl (fl 0.1) ''viseme_aa'' (fl 0.1),
      mkEventR fl (fl 0.2) ''viseme_DD'' (fl 0.3 - fl 0.2)]"
proof -
  have "phoneme catDouble = catPhoneme" by (simp add: catDouble_def)
  then have "wordToVisemeEventsR fl plainUnicode catDouble =
        allocateEventsR fl [js ''k'', [c_ash], js ''t''] catDouble"
    by (simp only: wordToVisemeEventsR_def tokenizeIPA_cat)
  then show ?thesis by (simp only: allocate_cat_double)
qed

lemma third_duration: "fl 0.3 - fl 0.2 = fl 0.1 - 1 / 2 ^ 55"
  by (simp add: fl_eval)

text \<open>
  C5 as stated fails for the third duration: the Allocator computes it as
  0.3 - 0.2 in doubles, which is 0.09999999999999998 and not the double 0.1.
\<close>

theorem cat_third_duration_counterexample:
  "map duration (wordToVisemeEventsR fl plainUnicode catDouble) = [fl 0.1, fl 0.1, fl 0.3 - fl 0.2] \<and>
   fl 0.3 - fl 0.2 = 900719925474099 / 2 ^ 53 \<and>
   fl 0.1 = 3602879701896397 / 2 ^ 55 \<and>
   fl 0.3 - fl 0.2 \<noteq> fl 0.1"
proof -
  have "map duration (wordToVisemeEventsR fl plainUnicode catDouble) =
      [fl 0.1, fl 0.1, fl 0.3 - fl 0.2]"
    by (simp add: events_cat_double mkEventR_def)
  moreover have "fl 0.3 - fl 0.2 = 900719925474099 / 2 ^ 53"
    by (simp add: fl_eval)
  moreover have "fl 0.1 = 3602879701896397 / 2 ^ 55"
    by (simp add: fl_eval)
  moreover have "fl 0.3 - fl 0.2 \<noteq> fl 0.1"
    by (simp add: fl_eval)
  ultimately show ?thesis by (simp only: simp_thms)
qed

text \<open>
  C5, amended: for the word "cat" with transcription k, U+00E6, t from 0.0s to
  0.3s, the Tokenizer produces the three tokens k, U+00E6, t and the Allocator
  emits exactly three events: viseme_kk at 0.0s, viseme_aa at 0.1s and viseme_DD
  at 0.2s (the doubles of these decimals); the first two have the duration 0.1
  and the third has the duration 0.3 - 0.2 of double arithmetic, which is less
  than the double 0.1 by \<open>2^-55\<close> seconds. The platform's NFC normalisation and
  mark stripping leave this string as it is (all its code units are below
  U+0300).
\<close>

theorem cat_events_in_doubles:
  assumes "normalizeNFC U catPhoneme = catPhoneme" and "stripMarks U catPhoneme = catPhoneme"
  shows "tokenizeIPA U catPhoneme = [js ''k'', [c_ash], js ''t''] \<and>
         wordToVisemeEventsR fl U catDouble =
           [\<lparr> atT = 0, name = ''viseme_kk'', duration = fl 0.1, peak = Some 1,
               attack = Some (fl 0.03), decay = Some (fl 0.04) \<rparr>,
            \<lparr> atT = fl 0.1, name = ''viseme_aa'', duration = fl 0.1, peak = Some 1,
               attack = Some (fl 0.03), decay = Some (fl 0.04) \<rparr>,
            \<lparr> atT = fl 0.2, name = ''viseme_DD'', duration = fl 0.3 - fl 0.2, peak = Some 1,
               attack = Some (fl 0.03), decay = Some (fl 0.04) \<rparr>] \<and>
         fl 0.3 - fl 0.2 = fl 0.1 - 1 / 2 ^ 55"
proof -
  have ne: "catPhoneme \<noteq> []" by (simp add: catPhoneme_def)
  have tok: "tokenizeIPA U catPhoneme = [js ''k'', [c_ash], js ''t'']"
    using ne
    by (simp add: tokenizeIPA_def normalizePhonemeString_plain [OF assms plain_cat] tokenizeLoop_cat)
  have ph: "phoneme catDouble = catPhoneme" by (simp add: catDouble_def)
  have "wordToVisemeEventsR fl U catDouble = allocateEventsR fl [js ''k'', [c_ash], js ''t''] catDouble"
    by (simp only: wordToVisemeEventsR_def ph tok)
  then have ev: "wordToVisemeEventsR fl U catDouble =
      [mkEventR fl 0 ''viseme_kk'' (fl 0.1), mkEventR fl (fl 0.1) ''viseme_aa'' (fl 0.1),
       mkEventR fl (fl 0.2) ''viseme_DD'' (fl 0.3 - fl 0.2)]"
    by (simp only: allocate_cat_double)
  show ?thesis
    using tok third_duration by (simp add: ev mkEventR_def ATTACK_def DECAY_def)
qed

theorem cat_events_in_doubles_witness:
  "tokenizeIPA plainUnicode catPhoneme = [js ''k'', [c_ash], js ''t''] \<and>
   map name (wordToVisemeEventsR fl plainUnicode catDouble) =
     [''viseme_kk'', ''viseme_aa'', ''viseme_DD''] \<and>
   map atT (wordToVisemeEventsR fl plainUnicode catDouble) = [0, fl 0.1, fl 0.2] \<and>
   map duration (wordToVisemeEventsR fl plainUnicode catDouble) = [fl 0.1, fl 0.1, fl 0.3 - fl 0.2]"
proof -
  have 1: "normalizeNFC plainUnicode catPhoneme = catPhoneme" by (simp add: plainUnicode_def)
  have 2: "stripMarks plainUnicode catPhoneme = catPhoneme" by (simp add: plainUnicode_def)
  show ?thesis using cat_events_in_doubles [OF 1 2] by simp
qed

section \<open>Properties of the curator\<close>



text \<open>
  C4 fails on the code: the score looks the viseme name up in the table of
  phoneme characters, so a vowel viseme scores 0 like any plain consonant viseme.
  In the timeline of the words "at" and "it" the vowel viseme_I at 0.15s conflicts
  with viseme_DD at 0.1s and is the event that is dropped.
\<close>

theorem vowel_viseme_loses_conflict:
  "allocateEvents [js ''a'', js ''t''] atWord @ allocateEvents [js ''i'', js ''t''] itWord = atItEvents \<and>
   preferScore (mkEvent 0.15 ''viseme_I'' 0.15) = 0 \<and>
   preferScore (mkEvent 0.1 ''viseme_DD'' 0.08) = 0 \<and>
   decimateTimeline atItEvents =
     [mkEvent 0 ''viseme_aa'' 0.1, mkEvent 0.1 ''viseme_DD'' 0.08, mkEvent 0.3 ''viseme_DD'' 0.15]"
  by code_simp

section \<open>Playback stop\<close>

text \<open>
  C1 as stated fails for the pre-roll word queue: a word delivered before
  playback starts is queued, and the stop handler leaves it in the queue.
\<close>

theorem stop_keeps_word_queue_counterexample:
  "wordQueue (onWordTiming plainUnicode [catWord] initState) = [catWord] \<and>
   wordQueue (onPlaybackStopped (onWordTiming plainUnicode [catWord] initState)) = [catWord] \<and>
   wordQueue (onPlaybackStopped (onWordTiming plainUnicode [catWord] initState)) \<noteq> []"
  by (simp add: onPlaybackStopped_def onWordTiming_def initState_def catWord_def normalize_eval)

text \<open>
  C1, amended: after the stop handler the segment state is \<open>{0, 0}\<close>, the dedup
  set, the pending queue and the active set are empty and the anchor time is
  unset; the pre-roll word queue is left as it is.
\<close>

theorem stop_clears_segment_state:
  "t0 (onPlaybackStopped st) = None \<and>
   segState (onPlaybackStopped st) = \<lparr> segOffset = 0, lastAbsEnd = 0 \<rparr> \<and>
   seenEvents (onPlaybackStopped st) = {} \<and>
   pendingEvents (onPlaybackStopped st) = [] \<and>
   activeEnvelopes (onPlaybackStopped st) = [] \<and>
   wordQueue (onPlaybackStopped st) = wordQueue st"
  by (simp add: onPlaybackStopped_def)

section \<open>Deduplication\<close>

lemma fold_pushEvent_seen:
  "fst (fold pushEvent evs (seen, pend)) = seen \<union> makeEventKey ` set evs"
  by (induction evs arbitrary: seen pend) (auto simp: pushEvent_def)

lemma fold_pushEvent_noop:
  "makeEventKey ` set evs \<subseteq> seen \<Longrightarrow> fold pushEvent evs (seen, pend) = (seen, pend)"
  by (induction evs) (auto simp: pushEvent_def)

lemma pushWord_seen: "fst (pushWord U w s) = fst s \<union> wordKeys U w"
  by (cases s) (simp add: pushWord_def wordKeys_def fold_pushEvent_seen)

lemma pushWord_noop: "wordKeys U w \<subseteq> fst s \<Longrightarrow> pushWord U w s = s"
  by (cases s) (auto simp: pushWord_def wordKeys_def fold_pushEvent_noop)

lemma fold_pushWord_seen:
  "fst (fold (pushWord U) ws s) = fst s \<union> (\<Union>w \<in> set ws. wordKeys U w)"
  by (induction ws arbitrary: s) (auto simp: pushWord_seen)

lemma fold_pushWord_noop:
  "(\<Union>w \<in> set ws. wordKeys U w) \<subseteq> fst s \<Longrightarrow> fold (pushWord U) ws s = s"
  by (induction ws) (simp_all add: pushWord_noop)

lemma pushWordsToTimeline_seen:
  "seenEvents (pushWordsToTimeline U ws st) = seenEvents st \<union> (\<Union>w \<in> set ws. wordKeys U w)"
proof (cases "ws = []")
  case True
  then show ?thesis by (simp add: pushWordsToTimeline_def)
next
  case False
  obtain seen pend where
    f: "fold (pushWord U) (sort_key (\<lambda>w. finVal (start w)) ws) (seenEvents st, pendingEvents st) =
        (seen, pend)"
    by (cases "fold (pushWord U) (sort_key (\<lambda>w. finVal (start w)) ws) (seenEvents st, pendingEvents st)")
  have "fst (fold (pushWord U) (sort_key (\<lambda>w. finVal (start w)) ws) (seenEvents st, pendingEvents st)) =
        seenEvents st \<union> (\<Union>w \<in> set ws. wordKeys U w)"
    by (simp add: fold_pushWord_seen)
  then have "seen = seenEvents st \<union> (\<Union>w \<in> set ws. wordKeys U w)"
    by (simp add: f)
  with False show ?thesis
    by (simp add: pushWordsToTimeline_def Let_def f)
qed

text \<open>The curator never invents an event: it keeps shapes and onsets of its input.\<close>

lemma mergeStep_length: "length (mergeStep merged e) \<le> Suc (length merged)"
  by (simp add: mergeStep_def Let_def)

lemma mergeStep_shapes: "shapeAt ` set (mergeStep merged e) \<subseteq> shapeAt ` set merged \<union> {shapeAt e}"
proof (cases "merged = []")
  case True
  then show ?thesis by (simp add: mergeStep_def)
next
  case False
  then have sp: "merged = butlast merged @ [last merged]" by simp
  have "set merged = set (butlast merged) \<union> {last merged}"
    by (subst sp) (simp only: set_append list.set)
  then show ?thesis
    by (auto simp: mergeStep_def Let_def shapeAt_def)
qed

lemma foldl_mergeStep_length: "length (foldl mergeStep acc evs) \<le> length acc + length evs"
proof (induction evs arbitrary: acc)
  case Nil
  show ?case by simp
next
  case (Cons e evs)
  have "length (foldl mergeStep (mergeStep acc e) evs) \<le> length (mergeStep acc e) + length evs"
    by (rule Cons.IH)
  with mergeStep_length [of acc e] show ?case by simp
qed

lemma foldl_mergeStep_shapes:
  "shapeAt ` set (foldl mergeStep acc evs) \<subseteq> shapeAt ` set acc \<union> shapeAt ` set evs"
proof (induction evs arbitrary: acc)
  case Nil
  show ?case by simp
next
  case (Cons e evs)
  have "shapeAt ` set (foldl mergeStep (mergeStep acc e) evs) \<subseteq>
        shapeAt ` set (mergeStep acc e) \<union> shapeAt ` set evs"
    by (rule Cons.IH)
  moreover have "shapeAt ` set (mergeStep acc e) \<subseteq> shapeAt ` set acc \<union> {shapeAt e}"
    by (rule mergeStep_shapes)
  ultimately have "shapeAt ` set (foldl mergeStep (mergeStep acc e) evs) \<subseteq>
        shapeAt ` set acc \<union> ({shapeAt e} \<union> shapeAt ` set evs)"
    by blast
  then show ?case by simp
qed

lemma rateStep_length: "length (fst (rateStep s e)) \<le> Suc (length (fst s))"
  by (cases s) (auto simp: rateStep_def)

lemma rateStep_set: "set (fst (rateStep s e)) \<subseteq> set (fst s) \<union> {e}"
proof (cases s)
  case (Pair keep lastAt)
  have "set (butlast keep) \<subseteq> set keep"
    by (auto dest: in_set_butlastD)
  with Pair show ?thesis by (auto simp: rateStep_def)
qed

lemma foldl_rateStep_length: "length (fst (foldl rateStep s evs)) \<le> length (fst s) + length evs"
proof (induction evs arbitrary: s)
  case Nil
  show ?case by simp
next
  case (Cons e evs)
  have "length (fst (foldl rateStep (rateStep s e) evs)) \<le> length (fst (rateStep s e)) + length evs"
    by (rule Cons.IH)
  with rateStep_length [of s e] show ?case by simp
qed

lemma foldl_rateStep_set: "set (fst (foldl rateStep s evs)) \<subseteq> set (fst s) \<union> set evs"
proof (induction evs arbitrary: s)
  case Nil
  show ?case by simp
next
  case (Cons e evs)
  have "set (fst (foldl rateStep (rateStep s e) evs)) \<subseteq> set (fst (rateStep s e)) \<union> set evs"
    by (rule Cons.IH)
  moreover have "set (fst (rateStep s e)) \<subseteq> set (fst s) \<union> {e}"
    by (rule rateStep_set)
  ultimately have "set (fst (foldl rateStep (rateStep s e) evs)) \<subseteq> set (fst s) \<union> ({e} \<union> set evs)"
    by blast
  then show ?case by simp
qed

lemma decimateTimeline_length: "length (decimateTimeline evs) \<le> length evs"
proof (cases "length evs \<le> 1")
  case True
  then show ?thesis by (simp add: decimateTimeline_def)
next
  case False
  have "length (fst (foldl rateStep ([], None) (foldl mergeStep [] evs))) \<le>
        length (foldl mergeStep [] evs)"
    using foldl_rateStep_length [of "([], None)" "foldl mergeStep [] evs"] by simp
  also have "\<dots> \<le> length evs"
    using foldl_mergeStep_length [of "[]" evs] by simp
  finally show ?thesis using False by (simp add: decimateTimeline_def Let_def)
qed

lemma decimateTimeline_shapes: "shapeAt ` set (decimateTimeline evs) \<subseteq> shapeAt ` set evs"
proof (cases "length evs \<le> 1")
  case True
  then show ?thesis by (simp add: decimateTimeline_def)
next
  case False
  have "set (fst (foldl rateStep ([], None) (foldl mergeStep [] evs))) \<subseteq>
        set (foldl mergeStep [] evs)"
    using foldl_rateStep_set [of "([], None)" "foldl mergeStep [] evs"] by simp
  then have "shapeAt ` set (fst (foldl rateStep ([], None) (foldl mergeStep [] evs))) \<subseteq>
        shapeAt ` set (foldl mergeStep [] evs)"
    by (rule image_mono)
  also have "\<dots> \<subseteq> shapeAt ` set evs"
    using foldl_mergeStep_shapes [of "[]" evs] by simp
  finally show ?thesis using False by (simp add: decimateTimeline_def Let_def)
qed

text \<open>The word "cat" spoken over 0.6s, pushed and delivered while playing, step by step.\<close>

lemma events_cat: "wordToVisemeEvents plainUnicode slowCat = catEvents 0"
proof -
  have "phoneme slowCat = catPhoneme" by (simp add: slowCat_def)
  then have "wordToVisemeEvents plainUnicode slowCat =
        allocateEvents [js ''k'', [c_ash], js ''t''] slowCat"
    by (simp only: wordToVisemeEvents_def tokenizeIPA_cat)
  also have "\<dots> = catEvents 0" by code_simp
  finally show ?thesis .
qed

lemma events_cat_shifted: "wordToVisemeEvents plainUnicode (shiftWord (63 / 100) slowCat) = catEvents (63 / 100)"
proof -
  have "phoneme (shiftWord (63 / 100) slowCat) = catPhoneme" by (simp add: slowCat_def shiftWord_def)
  then have "wordToVisemeEvents plainUnicode (shiftWord (63 / 100) slowCat) =
        allocateEvents [js ''k'', [c_ash], js ''t''] (shiftWord (63 / 100) slowCat)"
    by (simp only: wordToVisemeEvents_def tokenizeIPA_cat)
  also have "\<dots> = catEvents (63 / 100)" by code_simp
  finally show ?thesis .
qed

lemma cat_not_punctuation:
  "\<not> punctuationOnly (word slowCat)" "\<not> punctuationOnly (word (shiftWord (63 / 100) slowCat))"
  by (simp_all add: punctuationOnly_def slowCat_def shiftWord_def js_def isSpace_def)

lemma decimate_cat: "decimateTimeline (catEvents 0) = catEvents 0"
  by code_simp

lemma decimate_cat_twice:
  "decimateTimeline (catEvents 0 @ catEvents (63 / 100)) = catEvents 0 @ catEvents (63 / 100)"
  by code_simp

lemma sorted_cat: "sort_key atT (catEvents 0) = catEvents 0"
  by (simp add: catEvents_def mkEvent_def)

lemma sorted_cat_twice: "sort_key atT (catEvents 0 @ catEvents (63 / 100)) = catEvents 0 @ catEvents (63 / 100)"
  by (simp add: catEvents_def mkEvent_def)

lemma push_cat_keys:
  "fold pushEvent (catEvents 0) ({}, []) = (catKeys 0, catEvents 0)"
  "fold pushEvent (catEvents 0) (catKeys 0, catEvents 0) = (catKeys 0, catEvents 0)"
  "fold pushEvent (catEvents (63 / 100)) (catKeys 0, catEvents 0) =
     (catKeys 0 \<union> catKeys 63, catEvents 0 @ catEvents (63 / 100))"
  by (auto simp: catEvents_def catKeys_def pushEvent_def makeEventKey_def mkEvent_def BUCKET_def
      round_def)

lemma cat_pushed_once:
  "pushWordsToTimeline plainUnicode [slowCat] playingState = catPushed"
  by (simp add: pushWordsToTimeline_def pushWord_def cat_not_punctuation events_cat
      playingState_def initState_def push_cat_keys sorted_cat decimate_cat catPushed_def)

lemma cat_pushed_twice:
  "pushWordsToTimeline plainUnicode [slowCat] catPushed = catPushed"
  by (simp add: pushWordsToTimeline_def pushWord_def cat_not_punctuation events_cat
      push_cat_keys sorted_cat decimate_cat catPushed_def)

lemma cat_normalized_first:
  "normalizeWordsToAbsolute [slowCat] \<lparr> segOffset = 0, lastAbsEnd = 0 \<rparr> =
     ([slowCat], \<lparr> segOffset = 0, lastAbsEnd = (3 / 5) \<rparr>)"
  by (simp add: normalize_eval slowCat_def)

lemma cat_normalized_second:
  "normalizeWordsToAbsolute [slowCat] \<lparr> segOffset = 0, lastAbsEnd = (3 / 5) \<rparr> =
     ([shiftWord (63 / 100) slowCat], \<lparr> segOffset = (63 / 100), lastAbsEnd = (123 / 100) \<rparr>)"
  by (simp add: normalize_eval slowCat_def)

lemma cat_delivered_once:
  "onWordTiming plainUnicode [slowCat] playingState =
     catPushed\<lparr> segState := \<lparr> segOffset = 0, lastAbsEnd = (3 / 5) \<rparr> \<rparr>"
proof -
  have "segState playingState = \<lparr> segOffset = 0, lastAbsEnd = 0 \<rparr>"
    by (simp add: playingState_def initState_def)
  moreover have "t0 (playingState\<lparr> segState := \<lparr> segOffset = 0, lastAbsEnd = (3 / 5) \<rparr> \<rparr>) \<noteq> None"
    by (simp add: playingState_def)
  moreover have "pushWordsToTimeline plainUnicode [slowCat]
        (playingState\<lparr> segState := \<lparr> segOffset = 0, lastAbsEnd = (3 / 5) \<rparr> \<rparr>) =
      catPushed\<lparr> segState := \<lparr> segOffset = 0, lastAbsEnd = (3 / 5) \<rparr> \<rparr>"
    by (simp add: pushWordsToTimeline_def pushWord_def cat_not_punctuation events_cat
        playingState_def initState_def push_cat_keys sorted_cat decimate_cat catPushed_def)
  ultimately show ?thesis
    by (simp add: onWordTiming_def cat_normalized_first)
qed

lemma cat_delivered_twice:
  "pendingEvents (onWordTiming plainUnicode [slowCat]
      (catPushed\<lparr> segState := \<lparr> segOffset = 0, lastAbsEnd = (3 / 5) \<rparr> \<rparr>)) =
   catEvents 0 @ catEvents (63 / 100)"
proof -
  have "pendingEvents (pushWordsToTimeline plainUnicode [shiftWord (63 / 100) slowCat]
        (catPushed\<lparr> segState := \<lparr> segOffset = (63 / 100), lastAbsEnd = (123 / 100) \<rparr> \<rparr>)) =
      catEvents 0 @ catEvents (63 / 100)"
    by (simp add: pushWordsToTimeline_def pushWord_def cat_not_punctuation events_cat_shifted
        push_cat_keys sorted_cat_twice decimate_cat_twice catPushed_def)
  moreover have "t0 (catPushed\<lparr> segState := \<lparr> segOffset = (63 / 100), lastAbsEnd = (123 / 100) \<rparr> \<rparr>) \<noteq> None"
    by (simp add: catPushed_def playingState_def)
  moreover have "segState (catPushed\<lparr> segState := \<lparr> segOffset = 0, lastAbsEnd = (3 / 5) \<rparr> \<rparr>) =
      \<lparr> segOffset = 0, lastAbsEnd = (3 / 5) \<rparr>"
    by simp
  ultimately show ?thesis
    by (simp add: onWordTiming_def cat_normalized_second)
qed

text \<open>
  C3 as stated fails: the Normalizer sees the second delivery of a batch as a
  backward jump and stitches it behind the first, so its events have new onsets
  and new keys. Delivering the word "cat" (0 to 0.6s) twice while playing leaves
  six pending events, three of them added by the second delivery at the onsets
  0.63s, 0.83s and 1.03s.
\<close>

theorem second_delivery_counterexample:
  "pendingEvents (onWordTiming plainUnicode [slowCat] playingState) = catEvents 0 \<and>
   pendingEvents (onWordTiming plainUnicode [slowCat]
                   (onWordTiming plainUnicode [slowCat] playingState)) =
     catEvents 0 @ catEvents (63 / 100) \<and>
   length (catEvents 0) = 3 \<and> length (catEvents 0 @ catEvents (63 / 100)) = 6"
  by (simp add: cat_delivered_once cat_delivered_twice) (simp add: catPushed_def catEvents_def)

text \<open>
  C3, amended: if a batch of words with absolute times is pushed to the timeline
  and the same batch is pushed again later in the same segment (the set of seen
  keys has only grown since, as it does until playback stops), the second push
  adds no event: the set of seen keys is unchanged, the pending queue is only
  sorted and decimated again, it does not get longer, and every event in it has
  the shape and onset of an event that was pending before.
\<close>

theorem second_push_adds_no_event:
  assumes "seenEvents (pushWordsToTimeline U ws st0) \<subseteq> seenEvents st"
  shows "seenEvents (pushWordsToTimeline U ws st) = seenEvents st \<and>
         pendingEvents (pushWordsToTimeline U ws st) =
           (if ws = [] then pendingEvents st
            else decimateTimeline (sort_key atT (pendingEvents st))) \<and>
         length (pendingEvents (pushWordsToTimeline U ws st)) \<le> length (pendingEvents st) \<and>
         shapeAt ` set (pendingEvents (pushWordsToTimeline U ws st)) \<subseteq>
           shapeAt ` set (pendingEvents st)"
proof (cases "ws = []")
  case True
  then show ?thesis by (simp add: pushWordsToTimeline_def)
next
  case False
  have keys: "(\<Union>w \<in> set ws. wordKeys U w) \<subseteq> seenEvents st"
    using assms by (auto simp: pushWordsToTimeline_seen)
  then have "(\<Union>w \<in> set (sort_key (\<lambda>w. finVal (start w)) ws). wordKeys U w) \<subseteq>
        fst (seenEvents st, pendingEvents st)"
    by simp
  then have noop: "fold (pushWord U) (sort_key (\<lambda>w. finVal (start w)) ws)
          (seenEvents st, pendingEvents st) = (seenEvents st, pendingEvents st)"
    by (rule fold_pushWord_noop)
  have pend: "pendingEvents (pushWordsToTimeline U ws st) =
        decimateTimeline (sort_key atT (pendingEvents st))"
    using False by (simp add: pushWordsToTimeline_def Let_def noop)
  have seen: "seenEvents (pushWordsToTimeline U ws st) = seenEvents st"
    using False by (simp add: pushWordsToTimeline_def Let_def noop)
  have len: "length (decimateTimeline (sort_key atT (pendingEvents st))) \<le> length (pendingEvents st)"
    using decimateTimeline_length [of "sort_key atT (pendingEvents st)"] by simp
  have shp: "shapeAt ` set (decimateTimeline (sort_key atT (pendingEvents st))) \<subseteq>
        shapeAt ` set (pendingEvents st)"
    using decimateTimeline_shapes [of "sort_key atT (pendingEvents st)"] by simp
  show ?thesis using False pend seen len shp by simp
qed

theorem second_push_adds_no_event_witness:
  "seenEvents (pushWordsToTimeline plainUnicode [slowCat] playingState) \<subseteq> seenEvents catPushed \<and>
   seenEvents (pushWordsToTimeline plainUnicode [slowCat] catPushed) = seenEvents catPushed \<and>
   length (pendingEvents (pushWordsToTimeline plainUnicode [slowCat] catPushed)) \<le> 3 \<and>
   pendingEvents (pushWordsToTimeline plainUnicode [slowCat] catPushed) = catEvents 0"
proof -
  have h: "seenEvents (pushWordsToTimeline plainUnicode [slowCat] playingState) \<subseteq> seenEvents catPushed"
    by (simp add: cat_pushed_once)
  have l: "length (pendingEvents catPushed) = 3"
    by (simp add: catPushed_def catEvents_def)
  note t = second_push_adds_no_event [OF h]
  have a: "seenEvents (pushWordsToTimeline plainUnicode [slowCat] catPushed) = seenEvents catPushed"
    using t by blast
  have b: "length (pendingEvents (pushWordsToTimeline plainUnicode [slowCat] catPushed)) \<le>
           length (pendingEvents catPushed)"
    using t by blast
  have c: "pendingEvents (pushWordsToTimeline plainUnicode [slowCat] catPushed) = catEvents 0"
    by (simp add: cat_pushed_twice) (simp add: catPushed_def)
  show ?thesis
  proof (intro conjI)
    show "seenEvents (pushWordsToTimeline plainUnicode [slowCat] playingState) \<subseteq> seenEvents catPushed"
      by (rule h)
    show "seenEvents (pushWordsToTimeline plainUnicode [slowCat] catPushed) = seenEvents catPushed"
      by (rule a)
    show "length (pendingEvents (pushWordsToTimeline plainUnicode [slowCat] catPushed)) \<le> 3"
      using b l by (simp only:)
    show "pendingEvents (pushWordsToTimeline plainUnicode [slowCat] catPushed) = catEvents 0"
      by (rule c)
  qed
qed

section \<open>Properties of the scheduler\<close>

lemma mapSet_subset: "set (mapSet k v m) \<subseteq> insert (k, v) (set m)"
  by (induction m) auto

lemma mapGetOr0_nonneg:
  assumes "\<And>k v. (k, v) \<in> set m \<Longrightarrow> 0 < v"
  shows "0 \<le> mapGetOr0 m k"
proof (cases "map_of m k")
  case None
  then show ?thesis by (simp add: mapGetOr0_def)
next
  case (Some v)
  then have "(k, v) \<in> set m" by (rule map_of_SomeD)
  then have "0 < v" by (rule assms)
  with Some show ?thesis by (simp add: mapGetOr0_def)
qed

lemma aggStep_bounded:
  assumes inv: "\<And>k v. (k, v) \<in> set m \<Longrightarrow> 0 < v \<and> v \<le> MORPH_CAP"
    and mem: "(k, v) \<in> set (aggStep gains env m)"
  shows "0 < v \<and> v \<le> MORPH_CAP"
proof (cases "(k, v) \<in> set m")
  case True
  then show ?thesis by (rule inv)
next
  case False
  define val where
    "val = min MORPH_CAP (envValueFromCountdown env *
             (case gains (envName env) of None \<Rightarrow> 1 | Some g \<Rightarrow> g))"
  have changed: "aggStep gains env m \<noteq> m" using False mem by auto
  then have gt: "val > mapGetOr0 m (envName env)"
    and eq: "aggStep gains env m = mapSet (envName env) val m"
    by (auto simp: aggStep_def Let_def val_def split: if_splits)
  have "(k, v) \<in> insert (envName env, val) (set m)"
    using mem mapSet_subset [of "envName env" val m] by (auto simp: eq)
  with False have v: "v = val" by simp
  have "0 \<le> mapGetOr0 m (envName env)"
    by (rule mapGetOr0_nonneg) (use inv in blast)
  with gt have "0 < val" by simp
  moreover have "val \<le> MORPH_CAP" by (simp add: val_def)
  ultimately show ?thesis using v by simp
qed

lemma fold_aggStep_bounded:
  assumes "\<And>k v. (k, v) \<in> set m \<Longrightarrow> 0 < v \<and> v \<le> MORPH_CAP"
    and "(k, v) \<in> set (fold (aggStep gains) envs m)"
  shows "0 < v \<and> v \<le> MORPH_CAP"
  using assms
proof (induction envs arbitrary: m)
  case Nil
  then show ?case by simp
next
  case (Cons env envs)
  have step: "\<And>k v. (k, v) \<in> set (aggStep gains env m) \<Longrightarrow> 0 < v \<and> v \<le> MORPH_CAP"
    using Cons.prems(1) by (rule aggStep_bounded)
  from Cons.prems(2) have "(k, v) \<in> set (fold (aggStep gains) envs (aggStep gains env m))"
    by simp
  with step show ?case by (rule Cons.IH)
qed

text \<open>
  C6: on every frame, for every state (so every set of pending events and active
  envelopes), every clock reading and frame delta, and every table of per-shape
  gains, each intensity passed to the rendering sink is at least 0 and at most
  the gain ceiling \<open>MORPH_CAP\<close>, which is 0.9.
\<close>

theorem frame_writes_bounded:
  assumes "(n, v) \<in> set (fst (useFrame gains ctxTime rawDt st))"
  shows "0 \<le> v \<and> v \<le> MORPH_CAP \<and> MORPH_CAP = 0.9"
proof -
  have "0 < v \<and> v \<le> MORPH_CAP"
  proof (cases "ctxTime")
    case None
    with assms show ?thesis by (simp add: useFrame_def)
  next
    case (Some currentTime)
    show ?thesis
    proof (cases "t0 st")
      case None
      with Some assms show ?thesis by (simp add: useFrame_def)
    next
      case (Some t0v)
      obtain pending active where
        pr: "promoteDueEvents (currentTime - t0v) (pendingEvents st) (activeEnvelopes st) = (pending, active)"
        by (cases "promoteDueEvents (currentTime - t0v) (pendingEvents st) (activeEnvelopes st)")
      from assms \<open>ctxTime = Some currentTime\<close> Some pr
      have "(n, v) \<in> set (fold (aggStep gains) active [])"
        by (simp add: useFrame_def Let_def)
      then show ?thesis
        by (rule fold_aggStep_bounded [rotated]) simp
    qed
  qed
  then show ?thesis by (simp add: MORPH_CAP_def)
qed

theorem frame_writes_bounded_witness:
  "fst (useFrame perVisemeGain (Some 0.05) 0.016 frameState) = [(''viseme_aa'', 0.9)] \<and>
   (0::real) \<le> 0.9 \<and> 0.9 \<le> MORPH_CAP"
proof -
  have w: "fst (useFrame perVisemeGain (Some 0.05) 0.016 frameState) = [(''viseme_aa'', 0.9)]"
    by code_simp
  then have "(''viseme_aa'', 0.9) \<in> set (fst (useFrame perVisemeGain (Some 0.05) 0.016 frameState))"
    by simp
  from frame_writes_bounded [OF this] w show ?thesis by simp
qed

end
